theory Spec2Isabelle
  imports Complex_Main "HOL-Library.AList" "HOL-Library.Sublist"
begin

section \<open>Python values used by app.py\<close>

text \<open>
  A Python \<open>bytes\<close> object is a list of 8-bit characters (\<open>string\<close>); a Python
  \<open>str\<close> that is known to be ASCII (event names, topics, command tokens, the
  ASCII-decoded volume payload, base64 text) is a \<open>string\<close> as well. The result of
  \<open>bytes.decode("utf8")\<close> is a list of Unicode code points.
\<close>

type_synonym bytes = string
type_synonym unicode = "nat list"

datatype py_error =
    ValueError string
  | UnicodeDecodeError
  | OverflowError
  | ZeroDivisionError
  | AttributeError

subsection \<open>\<open>bytes.decode("ascii")\<close> and \<open>bytes.decode("utf8")\<close>\<close>

definition byte :: "char \<Rightarrow> nat" where
  "byte c = of_char c"

definition decode_ascii :: "bytes \<Rightarrow> py_error + string" where
  "decode_ascii bs = (if list_all (\<lambda>c. byte c < 128) bs then Inr bs else Inl UnicodeDecodeError)"

definition is_cont :: "char \<Rightarrow> bool" where
  "is_cont c = (128 \<le> byte c \<and> byte c < 192)"

text \<open>
  The strict UTF-8 decoder of CPython: shortest form only, no surrogates, nothing above
  U+10FFFF. \<open>None\<close> stands for the UnicodeDecodeError.
\<close>

fun utf8_points :: "bytes \<Rightarrow> unicode option" where
  "utf8_points [] = Some []"
| "utf8_points (a # rest) =
     (if byte a < 128 then map_option (Cons (byte a)) (utf8_points rest)
      else if 194 \<le> byte a \<and> byte a < 224 then
        (case rest of
           b # r1 \<Rightarrow>
             if is_cont b
             then map_option (Cons ((byte a - 192) * 64 + (byte b - 128))) (utf8_points r1)
             else None
         | _ \<Rightarrow> None)
      else if 224 \<le> byte a \<and> byte a < 240 then
        (case rest of
           b # c # r2 \<Rightarrow>
             (let cp = (byte a - 224) * 4096 + (byte b - 128) * 64 + (byte c - 128)
              in if is_cont b \<and> is_cont c \<and> 2048 \<le> cp \<and> \<not> (55296 \<le> cp \<and> cp < 57344)
                 then map_option (Cons cp) (utf8_points r2)
                 else None)
         | _ \<Rightarrow> None)
      else if 240 \<le> byte a \<and> byte a < 245 then
        (case rest of
           b # c # d # r3 \<Rightarrow>
             (let cp = (byte a - 240) * 262144 + (byte b - 128) * 4096
                       + (byte c - 128) * 64 + (byte d - 128)
              in if is_cont b \<and> is_cont c \<and> is_cont d \<and> 65536 \<le> cp \<and> cp < 1114112
                 then map_option (Cons cp) (utf8_points r3)
                 else None)
         | _ \<Rightarrow> None)
      else None)"

definition decode_utf8 :: "bytes \<Rightarrow> py_error + unicode" where
  "decode_utf8 bs = (case utf8_points bs of None \<Rightarrow> Inl UnicodeDecodeError | Some t \<Rightarrow> Inr t)"

subsection \<open>\<open>base64.b64encode\<close>\<close>

definition b64_alphabet :: string where
  "b64_alphabet = ''ABCDEFGHIJKLMNOPQRSTUVWXYZabcdefghijklmnopqrstuvwxyz0123456789+/''"

definition b64_char :: "nat \<Rightarrow> char" where
  "b64_char n = b64_alphabet ! (n mod 64)"

fun b64encode :: "bytes \<Rightarrow> string" where
  "b64encode [] = []"
| "b64encode [a] =
     [b64_char (byte a div 4), b64_char ((byte a mod 4) * 16), CHR ''='', CHR ''='']"
| "b64encode [a, b] =
     [b64_char (byte a div 4), b64_char ((byte a mod 4) * 16 + byte b div 16),
      b64_char ((byte b mod 16) * 4), CHR ''='']"
| "b64encode (a # b # c # rest) =
     [b64_char (byte a div 4), b64_char ((byte a mod 4) * 16 + byte b div 16),
      b64_char ((byte b mod 16) * 4 + byte c div 64), b64_char (byte c mod 64)]
     @ b64encode rest"

subsection \<open>\<open>str.split(",")\<close>\<close>

fun split_on :: "char \<Rightarrow> string \<Rightarrow> string \<Rightarrow> string list" where
  "split_on sep acc [] = [rev acc]"
| "split_on sep acc (c # cs) =
     (if c = sep then rev acc # split_on sep [] cs else split_on sep (c # acc) cs)"

definition split_comma :: "string \<Rightarrow> string list" where
  "split_comma s = split_on CHR '','' [] s"


subsection \<open>Floats: IEEE 754 binary64\<close>

text \<open>
  A Python float is a binary64 value: finite, an infinity or a NaN. A finite value is kept
  as the rational number it denotes. Every operation forms the exact rational result and
  rounds it to the nearest binary64 value, ties to even, with gradual underflow and with
  overflow to an infinity. The sign of a zero is not kept: no result of app.py depends on
  it (\<open>int(-0.0)\<close> is \<open>0\<close>, and \<open>-0.0 - -30.0\<close> is \<open>30.0\<close>).
\<close>

datatype pyfloat = Fin rat | PInf | NInf | NaN

text \<open>Rounding to the nearest integer, ties to the even one.\<close>

definition round_half_even :: "rat \<Rightarrow> int" where
  "round_half_even x =
     (let f = \<lfloor>x\<rfloor>; r = x - of_int f
      in if r < 1 / 2 then f else if 1 / 2 < r then f + 1 else if even f then f else f + 1)"

text \<open>
  The binary exponent of a positive rational \<open>q\<close>: the integer \<open>e\<close> with
  \<open>2 powi e \<le> q < 2 powi (e + 1)\<close>, from the bit length of a natural number.
\<close>

fun flog2 :: "nat \<Rightarrow> nat" where
  "flog2 n = (if n < 2 then 0 else Suc (flog2 (n div 2)))"

declare flog2.simps [simp del]

definition ilog2 :: "rat \<Rightarrow> int" where
  "ilog2 q =
     (if 1 \<le> q then int (flog2 (nat \<lfloor>q\<rfloor>))
      else - int (Suc (flog2 (nat \<lceil>1 / q\<rceil> - 1))))"

text \<open>
  The binary64 value nearest to a positive rational, before the overflow check: 53
  significant bits, and the spacing \<open>2 powi (- 1074)\<close> of the subnormal numbers below
  \<open>2 powi (- 1022)\<close>.
\<close>

definition round_pos :: "rat \<Rightarrow> rat" where
  "round_pos q =
     (let e = max (ilog2 q) (- 1022); u = 2 powi (e - 52)
      in of_int (round_half_even (q / u)) * u)"

definition round_val :: "rat \<Rightarrow> rat" where
  "round_val q = (if q = 0 then 0 else if 0 < q then round_pos q else - round_pos (- q))"

definition round_double :: "rat \<Rightarrow> pyfloat" where
  "round_double q =
     (let r = round_val q
      in if 2 ^ 1024 \<le> r then PInf else if r \<le> - (2 ^ 1024) then NInf else Fin r)"

text \<open>
  The float operators \<open>+\<close>, \<open>-\<close>, \<open>*\<close> and \<open>/\<close> of Python. None of the first three
  raises; \<open>/\<close> raises ZeroDivisionError on a zero divisor.
\<close>

fun fneg :: "pyfloat \<Rightarrow> pyfloat" where
  "fneg (Fin a) = Fin (- a)"
| "fneg PInf = NInf"
| "fneg NInf = PInf"
| "fneg NaN = NaN"

fun fadd :: "pyfloat \<Rightarrow> pyfloat \<Rightarrow> pyfloat" where
  "fadd (Fin a) (Fin b) = round_double (a + b)"
| "fadd NaN y = NaN"
| "fadd x NaN = NaN"
| "fadd PInf NInf = NaN"
| "fadd NInf PInf = NaN"
| "fadd PInf y = PInf"
| "fadd x PInf = PInf"
| "fadd NInf y = NInf"
| "fadd x NInf = NInf"

definition fsub :: "pyfloat \<Rightarrow> pyfloat \<Rightarrow> pyfloat" where
  "fsub x y = fadd x (fneg y)"

fun fmul :: "pyfloat \<Rightarrow> pyfloat \<Rightarrow> pyfloat" where
  "fmul (Fin a) (Fin b) = round_double (a * b)"
| "fmul NaN y = NaN"
| "fmul x NaN = NaN"
| "fmul PInf (Fin b) = (if b = 0 then NaN else if 0 < b then PInf else NInf)"
| "fmul NInf (Fin b) = (if b = 0 then NaN else if 0 < b then NInf else PInf)"
| "fmul (Fin a) PInf = (if a = 0 then NaN else if 0 < a then PInf else NInf)"
| "fmul (Fin a) NInf = (if a = 0 then NaN else if 0 < a then NInf else PInf)"
| "fmul PInf PInf = PInf"
| "fmul PInf NInf = NInf"
| "fmul NInf PInf = NInf"
| "fmul NInf NInf = PInf"

fun fdiv :: "pyfloat \<Rightarrow> pyfloat \<Rightarrow> py_error + pyfloat" where
  "fdiv x (Fin b) =
     (if b = 0 then Inl ZeroDivisionError
      else Inr (case x of
                  Fin a \<Rightarrow> round_double (a / b)
                | PInf \<Rightarrow> if 0 < b then PInf else NInf
                | NInf \<Rightarrow> if 0 < b then NInf else PInf
                | NaN \<Rightarrow> NaN))"
| "fdiv (Fin a) PInf = Inr (Fin 0)"
| "fdiv (Fin a) NInf = Inr (Fin 0)"
| "fdiv x y = Inr NaN"

subsection \<open>\<open>float(str)\<close> and \<open>int(float)\<close>\<close>

definition is_digit :: "char \<Rightarrow> bool" where
  "is_digit c = (48 \<le> byte c \<and> byte c \<le> 57)"

definition is_space :: "char \<Rightarrow> bool" where
  "is_space c = (byte c = 32 \<or> (9 \<le> byte c \<and> byte c \<le> 13))"

definition strip :: "string \<Rightarrow> string" where
  "strip s = rev (dropWhile is_space (rev (dropWhile is_space s)))"

definition lower :: "char \<Rightarrow> char" where
  "lower c = (if 65 \<le> byte c \<and> byte c \<le> 90 then char_of (byte c + 32) else c)"

text \<open>
  Underscores in a numeric literal: allowed only between two digits. The first argument
  is the previous character, as in the loop of CPython.
\<close>

fun drop_underscores :: "char option \<Rightarrow> string \<Rightarrow> string option" where
  "drop_underscores prev [] = (if prev = Some CHR ''_'' then None else Some [])"
| "drop_underscores prev (c # cs) =
     (if c = CHR ''_'' then
        (if (case prev of Some p \<Rightarrow> is_digit p | None \<Rightarrow> False)
         then drop_underscores (Some c) cs else None)
      else if prev = Some CHR ''_'' \<and> \<not> is_digit c then None
      else map_option (Cons c) (drop_underscores (Some c) cs))"

definition parse_sign :: "string \<Rightarrow> bool \<times> string" where
  "parse_sign s =
     (case s of
        [] \<Rightarrow> (False, [])
      | c # cs \<Rightarrow> if c = CHR ''-'' then (True, cs) else if c = CHR ''+'' then (False, cs)
                 else (False, s))"

definition digits_val :: "string \<Rightarrow> nat" where
  "digits_val ds = foldl (\<lambda>n c. 10 * n + (byte c - 48)) 0 ds"

definition pow10 :: "int \<Rightarrow> rat" where
  "pow10 e = (if 0 \<le> e then 10 ^ nat e else 1 / 10 ^ nat (- e))"

definition parse_exponent :: "string \<Rightarrow> int option" where
  "parse_exponent s =
     (case s of
        [] \<Rightarrow> Some 0
      | c # cs \<Rightarrow>
          if lower c = CHR ''e'' then
            (case parse_sign cs of
               (neg, ds) \<Rightarrow>
                 if ds \<noteq> [] \<and> list_all is_digit ds
                 then Some (if neg then - int (digits_val ds) else int (digits_val ds))
                 else None)
          else None)"

text \<open>The exact value of a decimal literal without sign.\<close>

definition parse_decimal :: "string \<Rightarrow> rat option" where
  "parse_decimal s =
     (let ip = takeWhile is_digit s;
          r1 = dropWhile is_digit s;
          (fp, r2) = (case r1 of
                        [] \<Rightarrow> ([], [])
                      | c # cs \<Rightarrow> if c = CHR ''.''
                                 then (takeWhile is_digit cs, dropWhile is_digit cs)
                                 else ([], r1))
      in if ip = [] \<and> fp = [] then None
         else (case parse_exponent r2 of
                 None \<Rightarrow> None
               | Some e \<Rightarrow> Some (of_nat (digits_val (ip @ fp)) * pow10 (e - int (length fp)))))"

text \<open>
  \<open>float(s)\<close> for an ASCII string; \<open>None\<close> stands for the ValueError. The value of a
  decimal literal is rounded to the nearest binary64 value, so a literal that is too large
  becomes an infinity.
\<close>

definition py_float :: "string \<Rightarrow> pyfloat option" where
  "py_float s =
     (case drop_underscores None (strip s) of
        None \<Rightarrow> None
      | Some u \<Rightarrow>
          (case parse_sign u of
             (neg, r) \<Rightarrow>
               if map lower r = ''inf'' \<or> map lower r = ''infinity''
               then Some (if neg then NInf else PInf)
               else if map lower r = ''nan'' then Some NaN
               else (case parse_decimal r of
                       None \<Rightarrow> None
                     | Some q \<Rightarrow> Some (round_double (if neg then - q else q)))))"

text \<open>\<open>int(x)\<close> truncates towards zero; it raises on an infinity and on a NaN.\<close>

definition trunc :: "rat \<Rightarrow> int" where
  "trunc q = (if 0 \<le> q then \<lfloor>q\<rfloor> else \<lceil>q\<rceil>)"

fun py_int :: "pyfloat \<Rightarrow> py_error + int" where
  "py_int (Fin q) = Inr (trunc q)"
| "py_int PInf = Inl OverflowError"
| "py_int NInf = Inl OverflowError"
| "py_int NaN = Inl (ValueError ''cannot convert float NaN to integer'')"

section \<open>The numeric interpolator\<close>

text \<open>
  The closure \<open>interp_fn\<close> with the three variables it captures, and the function that
  builds it. The arguments are floats; the integer \<open>0\<close> of the one call in app.py is
  converted without loss by the mixed subtraction.
\<close>

definition interp_fn :: "pyfloat \<Rightarrow> pyfloat \<Rightarrow> pyfloat \<Rightarrow> pyfloat \<Rightarrow> pyfloat" where
  "interp_fn left_min right_min scaleFactor v =
     fadd right_min (fmul (fsub v left_min) scaleFactor)"

definition make_interpolator ::
  "pyfloat \<Rightarrow> pyfloat \<Rightarrow> pyfloat \<Rightarrow> pyfloat \<Rightarrow> py_error + (pyfloat \<Rightarrow> pyfloat)" where
  "make_interpolator left_min left_max right_min right_max =
     (let leftSpan = fsub left_max left_min;
          rightSpan = fsub right_max right_min
      in case fdiv rightSpan leftSpan of
           Inl e \<Rightarrow> Inl e
         | Inr scaleFactor \<Rightarrow> Inr (interp_fn left_min right_min scaleFactor))"

text \<open>
  \<open>volume_scaler = make_interpolator(-30.0, 0, -0.5, 100.0)\<close>: what the call returns
  (it does return, lemma \<open>make_interpolator_volume\<close> below).
\<close>

definition volume_scaler :: "pyfloat \<Rightarrow> pyfloat" where
  "volume_scaler = projr (make_interpolator (Fin (- 30)) (Fin 0) (Fin (- (1 / 2))) (Fin 100))"

section \<open>Configuration and state\<close>

text \<open>
  What the module reads at start-up: the topic root of the configuration file and the
  octets of the default cover image file.
\<close>

record config =
  TOPIC_ROOT :: string
  image_octets :: bytes

definition default_image_mime_type :: string where
  "default_image_mime_type = ''image/png''"

definition default_image_b64_str :: "config \<Rightarrow> string" where
  "default_image_b64_str cfg = b64encode (image_octets cfg)"

text \<open>
  The messages handed to \<open>socketio.emit\<close>: \<open>{"data": text}\<close>, the bare event name of
  a play event, \<open>{"data": int}\<close> and \<open>{"data": b64, "mimetype": mime}\<close>.
\<close>

datatype msg =
    TextData unicode
  | PlayName string
  | IntData int
  | ImageData string string

type_synonym sid = nat

text \<open>
  One call of \<open>socketio.emit(event, data, to=...)\<close>. Every call in app.py leaves
  \<open>to\<close> out, which is \<open>None\<close> here.
\<close>

record emission =
  ev_name :: string
  ev_msg :: msg
  ev_to :: "sid option"

text \<open>
  The module's mutable state: the dictionary \<open>SAVED_INFO\<close> (in insertion order, as a
  Python dict keeps it), the calls of \<open>socketio.emit\<close> and the calls of
  \<open>mqttc.publish\<close> made so far, oldest first.
\<close>

record state =
  SAVED_INFO :: "(string \<times> msg) list"
  emitted :: "emission list"
  published :: "(string \<times> string) list"

definition init_state :: state where
  "init_state = \<lparr>SAVED_INFO = [], emitted = [], published = []\<rparr>"

text \<open>
  The outcome of one call of a handler: it returns or it raises, and in both cases the
  module's state is what the call has made of it up to that point. Handlers run one at a
  time.
\<close>

datatype outcome = Returns state | Raises py_error state

fun state_of :: "outcome \<Rightarrow> state" where
  "state_of (Returns s) = s"
| "state_of (Raises e s) = s"

definition socketio_emit :: "string \<Rightarrow> msg \<Rightarrow> sid option \<Rightarrow> state \<Rightarrow> state" where
  "socketio_emit event data to s =
     s\<lparr>emitted := emitted s @ [\<lparr>ev_name = event, ev_msg = data, ev_to = to\<rparr>]\<rparr>"

text \<open>
  Flask-SocketIO delivers an emission of the server object to the session named by
  \<open>to\<close>, and to every connected session when \<open>to\<close> is left out.
\<close>

definition recipients :: "sid list \<Rightarrow> emission \<Rightarrow> sid list" where
  "recipients sessions e =
     (case ev_to e of None \<Rightarrow> sessions | Some t \<Rightarrow> filter (\<lambda>c. c = t) sessions)"

definition mqttc_publish :: "string \<Rightarrow> string \<Rightarrow> state \<Rightarrow> state" where
  "mqttc_publish topic m s = s\<lparr>published := published s @ [(topic, m)]\<rparr>"

section \<open>Topics and remote commands\<close>

definition form_subtopic_topic :: "config \<Rightarrow> string \<Rightarrow> string" where
  "form_subtopic_topic cfg subtopic = TOPIC_ROOT cfg @ ''/'' @ subtopic"

definition known_remote_commands :: "string list" where
  "known_remote_commands =
     [''command'', ''beginff'', ''beginrew'', ''mutetoggle'', ''nextitem'', ''previtem'',
      ''pause'', ''playpause'', ''play'', ''stop'', ''playresume'', ''shuffle_songs'',
      ''volumedown'', ''volumeup'']"

definition generate_remote_command :: "config \<Rightarrow> string \<Rightarrow> py_error + (string \<times> string)" where
  "generate_remote_command cfg command =
     (if command \<in> set known_remote_commands
      then Inr (TOPIC_ROOT cfg @ ''/remote'', command)
      else Inl (ValueError (''Unknown remote command: '' @ command)))"

text \<open>
  The body that the thirteen \<open>remote_*\<close> handlers share:
  \<open>(topic, msg) = _generate_remote_command(token); mqttc.publish(topic, msg)\<close>.
  Their \<open>json\<close> argument is only printed.
\<close>

definition issueCommand :: "config \<Rightarrow> string \<Rightarrow> state \<Rightarrow> outcome" where
  "issueCommand cfg token s =
     (case generate_remote_command cfg token of
        Inl e \<Rightarrow> Raises e s
      | Inr (topic, m) \<Rightarrow> Returns (mqttc_publish topic m s))"

definition handle_previtem :: "config \<Rightarrow> state \<Rightarrow> outcome" where
  "handle_previtem cfg s = issueCommand cfg ''previtem'' s"

definition handle_nextitem :: "config \<Rightarrow> state \<Rightarrow> outcome" where
  "handle_nextitem cfg s = issueCommand cfg ''nextitem'' s"

definition handle_stop :: "config \<Rightarrow> state \<Rightarrow> outcome" where
  "handle_stop cfg s = issueCommand cfg ''stop'' s"

definition handle_pause :: "config \<Rightarrow> state \<Rightarrow> outcome" where
  "handle_pause cfg s = issueCommand cfg ''pause'' s"

definition handle_playpause :: "config \<Rightarrow> state \<Rightarrow> outcome" where
  "handle_playpause cfg s = issueCommand cfg ''playpause'' s"

definition handle_play :: "config \<Rightarrow> state \<Rightarrow> outcome" where
  "handle_play cfg s = issueCommand cfg ''play'' s"

definition handle_playresume :: "config \<Rightarrow> state \<Rightarrow> outcome" where
  "handle_playresume cfg s = issueCommand cfg ''playresume'' s"

definition handle_mutetoggle :: "config \<Rightarrow> state \<Rightarrow> outcome" where
  "handle_mutetoggle cfg s = issueCommand cfg ''mutetoggle'' s"

definition handle_volumedown :: "config \<Rightarrow> state \<Rightarrow> outcome" where
  "handle_volumedown cfg s = issueCommand cfg ''volumedown'' s"

definition handle_volumeup :: "config \<Rightarrow> state \<Rightarrow> outcome" where
  "handle_volumeup cfg s = issueCommand cfg ''volumeup'' s"

definition handle_beginrew :: "config \<Rightarrow> state \<Rightarrow> outcome" where
  "handle_beginrew cfg s = issueCommand cfg ''beginrew'' s"

definition handle_beginff :: "config \<Rightarrow> state \<Rightarrow> outcome" where
  "handle_beginff cfg s = issueCommand cfg ''beginff'' s"

definition handle_shuffle_songs :: "config \<Rightarrow> state \<Rightarrow> outcome" where
  "handle_shuffle_songs cfg s = issueCommand cfg ''shuffle_songs'' s"

section \<open>Inbound broker messages\<close>

definition guessImageMime :: "bytes \<Rightarrow> string" where
  "guessImageMime magic =
     (if prefix [CHR 0xFF, CHR 0xD8] magic then ''image/jpeg''
      else if prefix [CHR 0x89, CHR ''P'', CHR ''N'', CHR ''G'', CHR 0x0D, CHR 0x0A, CHR 0x1A, CHR 0x0D] magic
      then ''image/png''
      else ''image/jpg'')"

definition send_and_store_playing_metadata :: "string \<Rightarrow> bytes \<Rightarrow> state \<Rightarrow> outcome" where
  "send_and_store_playing_metadata metadata_name payload s =
     (case decode_utf8 payload of
        Inl e \<Rightarrow> Raises e s
      | Inr text \<Rightarrow>
          (let m = TextData text;
               emitted_metadata_name = ''playing_'' @ metadata_name
           in Returns (socketio_emit emitted_metadata_name m None
                     (s\<lparr>SAVED_INFO := AList.update emitted_metadata_name m (SAVED_INFO s)\<rparr>))))"

definition send_play_event :: "string \<Rightarrow> state \<Rightarrow> outcome" where
  "send_play_event metadata_name s =
     Returns (socketio_emit metadata_name (PlayName metadata_name) None s)"

text \<open>
  The tuple assignment needs exactly four fields and raises ValueError otherwise, before
  the \<open>try\<close>. Inside the \<open>try\<close> only the ValueError of \<open>float\<close> is caught;
  \<open>int\<close> is applied after it.
\<close>

definition send_volume_event :: "string \<Rightarrow> bytes \<Rightarrow> state \<Rightarrow> outcome" where
  "send_volume_event metadata_name payload s =
     (case decode_ascii payload of
        Inl e \<Rightarrow> Raises e s
      | Inr text \<Rightarrow>
          (case split_comma text of
             [airplay_volume, volume, lowest_volume, highest_volume] \<Rightarrow>
               (let volume_as_percent =
                      (case py_float airplay_volume of
                         Some airplay_volume_float \<Rightarrow> volume_scaler airplay_volume_float
                       | None \<Rightarrow> Fin 50)
                in case py_int volume_as_percent of
                     Inl e \<Rightarrow> Raises e s
                   | Inr n \<Rightarrow> Returns (socketio_emit metadata_name (IntData n) None s))
           | parts \<Rightarrow>
               Raises (ValueError (if length parts < 4 then ''not enough values to unpack''
                                   else ''too many values to unpack'')) s))"

definition cover_event :: "config \<Rightarrow> bytes \<Rightarrow> state \<Rightarrow> outcome" where
  "cover_event cfg payload s =
     (let (mime_type, image_b64_str) =
            (if payload \<noteq> [] then (guessImageMime payload, b64encode payload)
             else (default_image_mime_type, default_image_b64_str cfg));
          m = ImageData image_b64_str mime_type
      in Returns (socketio_emit ''cover_art'' m None
                (s\<lparr>SAVED_INFO := AList.update ''cover_art'' m (SAVED_INFO s)\<rparr>)))"

text \<open>
  \<open>on_message\<close> is a sequence of independent \<open>if\<close> statements, run in order; an
  exception in one of them ends the call.
\<close>

fun run_ifs :: "(bool \<times> (state \<Rightarrow> outcome)) list \<Rightarrow> state \<Rightarrow> outcome" where
  "run_ifs [] s = Returns s"
| "run_ifs ((c, f) # rest) s =
     (if c then (case f s of Raises e s' \<Rightarrow> Raises e s' | Returns s' \<Rightarrow> run_ifs rest s')
      else run_ifs rest s)"

definition on_message :: "config \<Rightarrow> string \<Rightarrow> bytes \<Rightarrow> state \<Rightarrow> outcome" where
  "on_message cfg topic payload s =
     run_ifs
       [(topic = form_subtopic_topic cfg ''artist'', send_and_store_playing_metadata ''artist'' payload),
        (topic = form_subtopic_topic cfg ''album'', send_and_store_playing_metadata ''album'' payload),
        (topic = form_subtopic_topic cfg ''genre'', send_and_store_playing_metadata ''genre'' payload),
        (topic = form_subtopic_topic cfg ''title'', send_and_store_playing_metadata ''title'' payload),
        (topic = form_subtopic_topic cfg ''play_start'', send_play_event ''play_start''),
        (topic = form_subtopic_topic cfg ''play_end'', send_play_event ''play_end''),
        (topic = form_subtopic_topic cfg ''play_flush'', send_play_event ''play_flush''),
        (topic = form_subtopic_topic cfg ''play_resume'', send_play_event ''play_resume''),
        (topic = form_subtopic_topic cfg ''volume'', send_volume_event ''volume'' payload),
        (topic = form_subtopic_topic cfg ''cover'', cover_event cfg payload)]
       s"

text \<open>
  A run of broker messages, each a topic and a payload; it stops at the first call that
  raises.
\<close>

fun on_messages :: "config \<Rightarrow> (string \<times> bytes) list \<Rightarrow> state \<Rightarrow> outcome" where
  "on_messages cfg [] s = Returns s"
| "on_messages cfg ((topic, payload) # rest) s =
     (case on_message cfg topic payload s of
        Raises e s' \<Rightarrow> Raises e s'
      | Returns s' \<Rightarrow> on_messages cfg rest s')"

section \<open>The resend request\<close>

text \<open>
  The argument of the \<open>myevent\<close> handler: a dictionary, or any other value a client
  may send, on which \<open>json.get\<close> raises AttributeError.
\<close>

datatype json = JDict "(string \<times> string) list" | JOther

fun replay_loop :: "(string \<times> msg) list \<Rightarrow> state \<Rightarrow> state" where
  "replay_loop [] s = s"
| "replay_loop ((key, m) # rest) s = replay_loop rest (socketio_emit key m None s)"

definition handle_my_custom_event :: "json \<Rightarrow> state \<Rightarrow> outcome" where
  "handle_my_custom_event j s =
     (case j of
        JOther \<Rightarrow> Raises AttributeError s
      | JDict d \<Rightarrow> Returns (replay_loop (SAVED_INFO s) s))"

section \<open>The tables of subtopics\<close>

text \<open>
  The dictionaries \<open>known_play_metadata_types\<close> and \<open>known_core_metadata_types\<close>, in
  the order of the source; \<open>on_connect\<close> subscribes to their keys (and to \<open>cover\<close>
  when cover art is shown).
\<close>

definition known_play_metadata_types :: "(string \<times> string) list" where
  "known_play_metadata_types =
     [(''songalbum'', ''songalbum''), (''volume'', ''volume''), (''client_ip'', ''client_ip''),
      (''active_start'', ''active_start''), (''active_end'', ''active_end''),
      (''play_start'', ''play_start''), (''play_end'', ''play_end''),
      (''play_flush'', ''play_flush''), (''play_resume'', ''play_resume'')]"

definition known_core_metadata_types :: "(string \<times> string) list" where
  "known_core_metadata_types =
     [(''artist'', ''showArtist''), (''album'', ''showAlbum''), (''title'', ''showTitle''),
      (''genre'', ''showGenre'')]"

definition subtopic_list :: "bool \<Rightarrow> string list" where
  "subtopic_list showCoverArt =
     map fst known_core_metadata_types @ map fst known_play_metadata_types
     @ (if showCoverArt then [''cover''] else [])"

text \<open>
  The subtopics that have a branch in \<open>on_message\<close>: the four that go to
  \<open>_send_and_store_playing_metadata\<close>, the four that go to \<open>_send_play_event\<close>,
  \<open>volume\<close> and \<open>cover\<close>.
\<close>

definition text_subtopics :: "string list" where
  "text_subtopics = [''artist'', ''album'', ''genre'', ''title'']"

definition play_subtopics :: "string list" where
  "play_subtopics = [''play_start'', ''play_end'', ''play_flush'', ''play_resume'']"

definition handled_subtopics :: "string list" where
  "handled_subtopics = text_subtopics @ play_subtopics @ [''volume'', ''cover'']"

text \<open>
  The subtopics whose branch of \<open>on_message\<close> writes \<open>SAVED_INFO\<close>, each with the key
  it writes.
\<close>

definition stored_subtopics :: "(string \<times> string) list" where
  "stored_subtopics =
     [(''artist'', ''playing_artist''), (''album'', ''playing_album''),
      (''genre'', ''playing_genre''), (''title'', ''playing_title''),
      (''cover'', ''cover_art'')]"

text \<open>The emission that the replay loop makes for one entry of \<open>SAVED_INFO\<close>.\<close>

definition replayed :: "string \<times> msg \<Rightarrow> emission" where
  "replayed km = \<lparr>ev_name = fst km, ev_msg = snd km, ev_to = None\<rparr>"

section \<open>A concrete configuration\<close>

text \<open>A topic root and a three-octet image file, for the concrete runs below.\<close>

definition cfg0 :: config where
  "cfg0 = \<lparr>TOPIC_ROOT = ''shairport'', image_octets = ''png''\<rparr>"


section \<open>Rounding to binary64\<close>

lemma flog2_bounds: "0 < n \<Longrightarrow> 2 ^ flog2 n \<le> n \<and> n < 2 ^ Suc (flog2 n)"
proof (induction n rule: flog2.induct)
  case (1 n)
  show ?case
  proof (cases "n < 2")
    case True
    with 1(2) show ?thesis by (simp add: flog2.simps)
  next
    case False
    then have "0 < n div 2" by simp
    with 1(1) False have IH: "2 ^ flog2 (n div 2) \<le> n div 2 \<and> n div 2 < 2 ^ Suc (flog2 (n div 2))"
      by simp
    have eq: "flog2 n = Suc (flog2 (n div 2))"
      using False by (subst flog2.simps) simp
    from IH show ?thesis
      unfolding eq by auto
  qed
qed

lemma ilog2_bounds:
  assumes "0 < q"
  shows "2 powi (ilog2 q) \<le> q \<and> q < 2 powi (ilog2 q + 1)"
proof (cases "1 \<le> q")
  case True
  define n where "n = nat \<lfloor>q\<rfloor>"
  have n0: "0 < n" using True by (simp add: n_def)
  have fl: "0 \<le> \<lfloor>q\<rfloor>" using True by simp
  have nn: "(of_nat n :: rat) = of_int \<lfloor>q\<rfloor>"
    using fl by (simp add: n_def)
  have nq: "of_nat n \<le> q" "q < of_nat n + 1"
    unfolding nn by linarith+
  from flog2_bounds [OF n0] have b: "2 ^ flog2 n \<le> n" "n + 1 \<le> 2 ^ Suc (flog2 n)"
    by auto
  have e: "ilog2 q = int (flog2 n)"
    using True by (simp add: ilog2_def n_def)
  have "(2::rat) ^ flog2 n \<le> of_nat n"
    using b(1) of_nat_le_iff [of "2 ^ flog2 n" n, where ?'a = rat] by simp
  moreover have "of_nat n + 1 \<le> (2::rat) ^ Suc (flog2 n)"
    using b(2) of_nat_le_iff [of "n + 1" "2 ^ Suc (flog2 n)", where ?'a = rat] by simp
  moreover have "2 powi int (flog2 n) = (2::rat) ^ flog2 n"
    by (simp add: power_int_def)
  moreover have "2 powi (int (flog2 n) + 1) = (2::rat) ^ Suc (flog2 n)"
    by (simp add: power_int_def nat_add_distrib)
  ultimately show ?thesis
    using nq unfolding e by linarith
next
  case False
  define n where "n = nat \<lceil>1 / q\<rceil>"
  have q1: "1 < 1 / q" using assms False by simp
  then have n2: "2 \<le> n" unfolding n_def by linarith
  define m where "m = n - 1"
  have m0: "0 < m" using n2 by (simp add: m_def)
  have cl: "0 \<le> \<lceil>1 / q\<rceil>" using q1 by linarith
  have nn: "(of_nat n :: rat) = of_int \<lceil>1 / q\<rceil>"
    using cl by (simp add: n_def)
  have mm: "(of_nat m :: rat) = of_int \<lceil>1 / q\<rceil> - 1"
    using n2 nn by (simp add: m_def)
  have nq: "1 / q \<le> of_nat m + 1" "of_nat m < 1 / q"
    unfolding mm by linarith+
  from flog2_bounds [OF m0] have b: "2 ^ flog2 m \<le> m" "m + 1 \<le> 2 ^ Suc (flog2 m)"
    by auto
  have b1: "(2::rat) ^ flog2 m \<le> of_nat m"
    using b(1) of_nat_le_iff [of "2 ^ flog2 m" m, where ?'a = rat] by simp
  have b2: "of_nat m + 1 \<le> (2::rat) ^ Suc (flog2 m)"
    using b(2) of_nat_le_iff [of "m + 1" "2 ^ Suc (flog2 m)", where ?'a = rat] by simp
  have e: "ilog2 q = - int (Suc (flog2 m))"
    using False by (simp add: ilog2_def n_def m_def)
  have lo: "1 / q \<le> 2 ^ Suc (flog2 m)" using nq(1) b2 by linarith
  have hi: "2 ^ flog2 m < 1 / q" using nq(2) b1 by linarith
  have "1 / 2 ^ Suc (flog2 m) \<le> q"
    using lo assms by (simp add: field_simps)
  moreover have "q < 1 / 2 ^ flog2 m"
    using hi assms by (simp add: field_simps)
  moreover have "2 powi (- int (Suc (flog2 m))) = 1 / (2::rat) ^ Suc (flog2 m)"
    unfolding power_int_minus power_int_of_nat by (simp add: inverse_eq_divide)
  moreover have "2 powi (- int (Suc (flog2 m)) + 1) = 1 / (2::rat) ^ flog2 m"
  proof -
    have "2 powi (- int (flog2 m)) = 1 / (2::rat) ^ flog2 m"
      unfolding power_int_minus power_int_of_nat by (simp add: inverse_eq_divide)
    moreover have "- int (Suc (flog2 m)) + 1 = - int (flog2 m)" by simp
    ultimately show ?thesis by (simp only:)
  qed
  ultimately show ?thesis
    unfolding e by linarith
qed

lemma round_half_even_of_int [simp]: "round_half_even (of_int n) = n"
  by (simp add: round_half_even_def)

lemma round_half_even_range: "\<lfloor>x\<rfloor> \<le> round_half_even x \<and> round_half_even x \<le> \<lfloor>x\<rfloor> + 1"
  by (simp add: round_half_even_def Let_def)

lemma round_half_even_mono:
  assumes "x \<le> y"
  shows "round_half_even x \<le> round_half_even y"
proof (cases "\<lfloor>x\<rfloor> = \<lfloor>y\<rfloor>")
  case True
  have "x - of_int \<lfloor>x\<rfloor> \<le> y - of_int \<lfloor>y\<rfloor>"
    using assms True by simp
  then show ?thesis
    unfolding round_half_even_def Let_def True by auto
next
  case False
  then have "\<lfloor>x\<rfloor> + 1 \<le> \<lfloor>y\<rfloor>"
    using floor_mono [OF assms] by linarith
  then show ?thesis
    using round_half_even_range [of x] round_half_even_range [of y] by linarith
qed

lemma ilog2_mono:
  assumes "0 < q1" and "q1 \<le> q2"
  shows "ilog2 q1 \<le> ilog2 q2"
proof -
  have "2 powi (ilog2 q1) \<le> q1" using ilog2_bounds [OF assms(1)] by simp
  also have "q1 \<le> q2" by fact
  also have "q2 < 2 powi (ilog2 q2 + 1)" using ilog2_bounds [of q2] assms by simp
  finally have lt: "(2::rat) powi (ilog2 q1) < 2 powi (ilog2 q2 + 1)" .
  show ?thesis
  proof (rule ccontr)
    assume "\<not> ilog2 q1 \<le> ilog2 q2"
    then have "ilog2 q2 + 1 \<le> ilog2 q1" by simp
    then have "(2::rat) powi (ilog2 q2 + 1) \<le> 2 powi (ilog2 q1)"
      by (intro power_int_increasing) simp_all
    with lt show False by simp
  qed
qed

lemma round_pos_mono:
  assumes "0 < q1" and "q1 \<le> q2"
  shows "round_pos q1 \<le> round_pos q2"
proof -
  have q2: "0 < q2" using assms by simp
  define e1 where "e1 = max (ilog2 q1) (- 1022)"
  define e2 where "e2 = max (ilog2 q2) (- 1022)"
  have r1: "round_pos q1 = of_int (round_half_even (q1 / 2 powi (e1 - 52))) * 2 powi (e1 - 52)"
    by (simp add: round_pos_def e1_def Let_def)
  have r2: "round_pos q2 = of_int (round_half_even (q2 / 2 powi (e2 - 52))) * 2 powi (e2 - 52)"
    by (simp add: round_pos_def e2_def Let_def)
  have le: "e1 \<le> e2"
    using ilog2_mono [OF assms] by (simp add: e1_def e2_def)
  show ?thesis
  proof (cases "e1 = e2")
    case True
    have "q1 / 2 powi (e2 - 52) \<le> q2 / 2 powi (e2 - 52)"
      using assms(2) by (simp add: divide_right_mono)
    then have "round_half_even (q1 / 2 powi (e2 - 52)) \<le> round_half_even (q2 / 2 powi (e2 - 52))"
      by (rule round_half_even_mono)
    then show ?thesis
      unfolding r1 r2 True by (simp add: mult_right_mono)
  next
    case False
    with le have lt: "e1 + 1 \<le> e2" by simp
    then have e2i: "e2 = ilog2 q2"
      unfolding e1_def e2_def by linarith
    have "2 powi e2 \<le> q2"
      using ilog2_bounds [OF q2] e2i by simp
    then have "2 powi e2 / 2 powi (e2 - 52) \<le> q2 / 2 powi (e2 - 52)"
      by (simp add: divide_right_mono)
    moreover have "(2::rat) powi e2 / 2 powi (e2 - 52) = of_int (2 ^ 52)"
      by (simp add: power_int_diff)
    ultimately have "round_half_even (of_int (2 ^ 52)) \<le> round_half_even (q2 / 2 powi (e2 - 52))"
      using round_half_even_mono by metis
    then have "(2::int) ^ 52 \<le> round_half_even (q2 / 2 powi (e2 - 52))"
      by (simp only: round_half_even_of_int)
    then have "(of_int (2 ^ 52) :: rat) \<le> of_int (round_half_even (q2 / 2 powi (e2 - 52)))"
      by (simp only: of_int_le_iff)
    then have "of_int (2 ^ 52) * 2 powi (e2 - 52) \<le> round_pos q2"
      unfolding r2 by (simp add: mult_right_mono)
    moreover have "(of_int (2 ^ 52) :: rat) * 2 powi (e2 - 52) = 2 powi e2"
      by (simp add: power_int_diff)
    ultimately have lo: "2 powi e2 \<le> round_pos q2" by simp
    have "q1 < 2 powi (ilog2 q1 + 1)"
      using ilog2_bounds [OF assms(1)] by simp
    also have "\<dots> \<le> 2 powi (e1 + 1)"
      by (intro power_int_increasing) (simp_all add: e1_def)
    finally have "q1 / 2 powi (e1 - 52) \<le> 2 powi (e1 + 1) / 2 powi (e1 - 52)"
      by (simp add: divide_right_mono)
    moreover have "(2::rat) powi (e1 + 1) / 2 powi (e1 - 52) = of_int (2 ^ 53)"
      by (simp add: power_int_diff power_int_add)
    ultimately have "round_half_even (q1 / 2 powi (e1 - 52)) \<le> round_half_even (of_int (2 ^ 53))"
      using round_half_even_mono by metis
    then have "round_half_even (q1 / 2 powi (e1 - 52)) \<le> 2 ^ 53"
      by (simp only: round_half_even_of_int)
    then have "(of_int (round_half_even (q1 / 2 powi (e1 - 52))) :: rat) \<le> of_int (2 ^ 53)"
      by (simp only: of_int_le_iff)
    then have "round_pos q1 \<le> of_int (2 ^ 53) * 2 powi (e1 - 52)"
      unfolding r1 by (simp add: mult_right_mono)
    moreover have "(of_int (2 ^ 53) :: rat) * 2 powi (e1 - 52) = 2 powi (e1 + 1)"
      by (simp add: power_int_diff power_int_add)
    ultimately have "round_pos q1 \<le> 2 powi (e1 + 1)" by simp
    also have "(2::rat) powi (e1 + 1) \<le> 2 powi e2"
      using lt by (intro power_int_increasing) simp_all
    finally show ?thesis using lo by simp
  qed
qed

lemma round_pos_nonneg: "0 < q \<Longrightarrow> 0 \<le> round_pos q"
proof -
  assume "0 < q"
  then have "0 \<le> q / 2 powi (max (ilog2 q) (- 1022) - 52)" by simp
  then have "round_half_even 0 \<le> round_half_even (q / 2 powi (max (ilog2 q) (- 1022) - 52))"
    by (rule round_half_even_mono)
  then have "0 \<le> round_half_even (q / 2 powi (max (ilog2 q) (- 1022) - 52))"
    using round_half_even_of_int [of 0] by simp
  then show ?thesis
    by (simp add: round_pos_def Let_def)
qed

lemma round_val_mono:
  assumes "q1 \<le> q2"
  shows "round_val q1 \<le> round_val q2"
proof -
  consider "0 < q1" | "q2 < 0" | "q1 \<le> 0" "0 \<le> q2" by linarith
  then show ?thesis
  proof cases
    case 1
    then show ?thesis using assms round_pos_mono [of q1 q2] by (simp add: round_val_def)
  next
    case 2
    then show ?thesis using assms round_pos_mono [of "- q2" "- q1"] by (simp add: round_val_def)
  next
    case 3
    have "round_val q1 \<le> 0"
      using 3(1) round_pos_nonneg [of "- q1"] by (simp add: round_val_def)
    moreover have "0 \<le> round_val q2"
      using 3(2) round_pos_nonneg [of q2] by (simp add: round_val_def)
    ultimately show ?thesis by simp
  qed
qed

lemma floor_rat_numeral_div [simp]:
  "\<lfloor>(numeral a :: rat) / numeral b\<rfloor> = numeral a div numeral b"
  using floor_divide_of_int_eq [of "numeral a" "numeral b", where ?'a = rat] by simp

lemma floor_rat_neg_numeral_div [simp]:
  "\<lfloor>- ((numeral a :: rat) / numeral b)\<rfloor> = - numeral a div numeral b"
  using floor_divide_of_int_eq [of "- numeral a" "numeral b", where ?'a = rat] by simp

lemma ceiling_rat_numeral_div [simp]:
  "\<lceil>(numeral a :: rat) / numeral b\<rceil> = - (- numeral a div numeral b)"
  by (simp add: ceiling_def)

lemma ceiling_rat_neg_numeral_div [simp]:
  "\<lceil>- ((numeral a :: rat) / numeral b)\<rceil> = - (numeral a div numeral b)"
  by (simp add: ceiling_def)

lemma ilog2_unique:
  assumes "0 < q" and "2 powi e \<le> q" and "q < 2 powi (e + 1)"
  shows "ilog2 q = e"
proof -
  from ilog2_bounds [OF assms(1)]
  have b: "2 powi (ilog2 q) \<le> q" "q < 2 powi (ilog2 q + 1)" by simp_all
  have "\<not> ilog2 q + 1 \<le> e"
  proof
    assume "ilog2 q + 1 \<le> e"
    then have "(2::rat) powi (ilog2 q + 1) \<le> 2 powi e"
      by (intro power_int_increasing) simp_all
    with b(2) assms(2) show False by simp
  qed
  moreover have "\<not> e + 1 \<le> ilog2 q"
  proof
    assume "e + 1 \<le> ilog2 q"
    then have "(2::rat) powi (e + 1) \<le> 2 powi (ilog2 q)"
      by (intro power_int_increasing) simp_all
    with b(1) assms(3) show False by simp
  qed
  ultimately show ?thesis by simp
qed

lemma round_half_even_unique:
  assumes "of_int m - 1 / 2 < x" and "x < of_int m + 1 / 2"
  shows "round_half_even x = m"
proof (cases "of_int m \<le> x")
  case True
  then have "\<lfloor>x\<rfloor> = m" using assms(2) by (intro floor_unique) simp_all
  then show ?thesis using assms(2) by (simp add: round_half_even_def)
next
  case False
  then have "\<lfloor>x\<rfloor> = m - 1" using assms(1) by (intro floor_unique) simp_all
  then show ?thesis using assms(1) by (simp add: round_half_even_def)
qed

lemma round_pos_eval:
  assumes "0 < q" and "2 powi e \<le> q" and "q < 2 powi (e + 1)" and "- 1022 \<le> e"
    and "u = 2 powi (e - 52)"
    and "(of_int m - 1 / 2) * u < q" and "q < (of_int m + 1 / 2) * u"
  shows "round_pos q = of_int m * u"
proof -
  have u0: "0 < u" by (simp add: assms(5))
  have "ilog2 q = e" using assms(1-3) by (rule ilog2_unique)
  then have r: "round_pos q = of_int (round_half_even (q / u)) * u"
    using assms(4) by (simp add: round_pos_def assms(5) max_def Let_def)
  have "of_int m - 1 / 2 < q / u" "q / u < of_int m + 1 / 2"
    using assms(6,7) u0 by (simp_all add: pos_less_divide_eq pos_divide_less_eq)
  then have "round_half_even (q / u) = m" by (rule round_half_even_unique)
  then show ?thesis by (simp add: r)
qed

lemma round_double_Fin:
  "- (2 ^ 1024) < round_val q \<Longrightarrow> round_val q < 2 ^ 1024 \<Longrightarrow> round_double q = Fin (round_val q)"
  by (simp add: round_double_def)

lemma round_val_minus: "round_val (- q) = - round_val q"
  by (simp add: round_val_def)

text \<open>
  How a concrete rounding is checked: the binary exponent \<open>e\<close>, the spacing \<open>u\<close>
  and the significand \<open>m\<close> are given, and the premises are numeric facts.
\<close>

lemma round_eval:
  assumes "0 < q" and "2 powi e \<le> q" and "q < 2 powi (e + 1)" and "- 1022 \<le> e"
    and "u = 2 powi (e - 52)"
    and "(of_int m - 1 / 2) * u < q" and "q < (of_int m + 1 / 2) * u"
    and "of_int m * u < 2 ^ 1024"
  shows "round_val q = of_int m * u \<and> round_val (- q) = - (of_int m * u)
         \<and> round_double q = Fin (of_int m * u) \<and> round_double (- q) = Fin (- (of_int m * u))"
proof -
  have p: "round_pos q = of_int m * u"
    using assms(1-7) by (rule round_pos_eval)
  have v: "round_val q = of_int m * u"
    using assms(1) p by (simp add: round_val_def)
  have nn: "0 \<le> round_val q"
    using assms(1) round_pos_nonneg [of q] by (simp add: round_val_def)
  have w: "round_val (- q) = - (of_int m * u)"
    using v by (simp add: round_val_minus)
  have "round_double q = Fin (of_int m * u)"
    using round_double_Fin [of q] v nn assms(8) by simp
  moreover have "round_double (- q) = Fin (- (of_int m * u))"
    using round_double_Fin [of "- q"] w v nn assms(8) by simp
  ultimately show ?thesis
    using v w by simp
qed


section \<open>The interpolator in binary64\<close>

lemma round_val_0 [simp]: "round_val 0 = 0"
  by (simp add: round_val_def)

lemma round_double_0 [simp]: "round_double 0 = Fin 0"
  by (simp add: round_double_def)

lemma round_half:
  "round_val (- (1 / 2)) = - (1 / 2) \<and> round_double (- (1 / 2)) = Fin (- (1 / 2))"
  using round_eval [of "1 / 2" "- 1" "1 / 2 ^ 53" "2 ^ 52"]
  by (simp add: power_int_def power_one_over)

lemma round_30: "round_val 30 = 30 \<and> round_double 30 = Fin 30"
  using round_eval [of 30 4 "1 / 2 ^ 48" "30 * 2 ^ 48"]
  by (simp add: power_int_def power_one_over)

lemma round_100: "round_val 100 = 100 \<and> round_double 100 = Fin 100"
  using round_eval [of 100 6 "1 / 2 ^ 46" "100 * 2 ^ 46"]
  by (simp add: power_int_def power_one_over)

lemma round_201_2: "round_double (201 / 2) = Fin (201 / 2)"
  using round_eval [of "201 / 2" 6 "1 / 2 ^ 46" "201 * 2 ^ 45"]
  by (simp add: power_int_def power_one_over)

text \<open>The scale factor: 100.5 / 30.0 is the binary64 value 0x1.acccccccccccdp+1.\<close>

lemma round_scale: "round_double (67 / 20) = Fin (7543529375845581 / 2251799813685248)"
  using round_eval [of "67 / 20" 1 "1 / 2 ^ 51" 7543529375845581]
  by (simp add: power_int_def power_one_over)

lemma round_30_scale:
  "round_val (30 * (7543529375845581 / 2251799813685248)) = 201 / 2
   \<and> round_double (30 * (7543529375845581 / 2251799813685248)) = Fin (201 / 2)"
  using round_eval [of "30 * (7543529375845581 / 2251799813685248)" 6 "1 / 2 ^ 46" "201 * 2 ^ 45"]
  by (simp add: power_int_def power_one_over)

lemma make_interpolator_volume:
  "make_interpolator (Fin (- 30)) (Fin 0) (Fin (- (1 / 2))) (Fin 100)
     = Inr (interp_fn (Fin (- 30)) (Fin (- (1 / 2))) (Fin (7543529375845581 / 2251799813685248)))"
  by (simp add: make_interpolator_def fsub_def round_30 round_201_2 round_scale)

lemma volume_scaler_eq:
  "volume_scaler = interp_fn (Fin (- 30)) (Fin (- (1 / 2))) (Fin (7543529375845581 / 2251799813685248))"
  by (simp add: volume_scaler_def make_interpolator_volume)

lemma volume_scaler_Fin:
  "volume_scaler (Fin v)
     = fadd (Fin (- (1 / 2))) (fmul (round_double (v + 30)) (Fin (7543529375845581 / 2251799813685248)))"
  by (simp add: volume_scaler_eq interp_fn_def fsub_def)

lemma round_double_bounded:
  assumes "- (2 ^ 10) \<le> round_val q" and "round_val q \<le> 2 ^ 10"
  shows "round_double q = Fin (round_val q)"
proof -
  have "(2::rat) ^ 10 < 2 ^ 1024"
    by (rule power_strict_increasing) simp_all
  then show ?thesis
    using assms by (intro round_double_Fin) simp_all
qed

lemma scaler_in_range:
  assumes "- 30 \<le> v" and "v \<le> 0"
  shows "volume_scaler (Fin v)
           = Fin (round_val (- (1 / 2)
                    + round_val (round_val (v + 30) * (7543529375845581 / 2251799813685248))))
         \<and> - (1 / 2) \<le> round_val (- (1 / 2)
                    + round_val (round_val (v + 30) * (7543529375845581 / 2251799813685248)))
         \<and> round_val (- (1 / 2)
                    + round_val (round_val (v + 30) * (7543529375845581 / 2251799813685248))) \<le> 100"
proof -
  define a where "a = round_val (v + 30)"
  define b where "b = round_val (a * (7543529375845581 / 2251799813685248))"
  define c where "c = round_val (- (1 / 2) + b)"
  have a: "0 \<le> a" "a \<le> 30"
    using round_val_mono [of 0 "v + 30"] round_val_mono [of "v + 30" 30] assms round_30
    by (simp_all add: a_def)
  have A: "round_double (v + 30) = Fin a"
    unfolding a_def using a by (intro round_double_bounded) (simp_all add: a_def)
  have "a * (7543529375845581 / 2251799813685248) \<le> 30 * (7543529375845581 / 2251799813685248)"
    using a(2) by (intro mult_right_mono) simp_all
  then have b: "0 \<le> b" "b \<le> 201 / 2"
    using round_val_mono [of 0 "a * (7543529375845581 / 2251799813685248)"]
      round_val_mono [of "a * (7543529375845581 / 2251799813685248)"
        "30 * (7543529375845581 / 2251799813685248)"] a(1) round_30_scale
    by (simp_all add: b_def)
  have B: "round_double (a * (7543529375845581 / 2251799813685248)) = Fin b"
    unfolding b_def using b by (intro round_double_bounded) (simp_all add: b_def)
  have c: "- (1 / 2) \<le> c" "c \<le> 100"
    using round_val_mono [of "- (1 / 2)" "- (1 / 2) + b"] round_val_mono [of "- (1 / 2) + b" 100]
      b round_half round_100
    by (simp_all add: c_def)
  have C: "round_double (- (1 / 2) + b) = Fin c"
    unfolding c_def using c by (intro round_double_bounded) (simp_all add: c_def)
  have "volume_scaler (Fin v) = Fin c"
    by (simp only: volume_scaler_Fin A fmul.simps B fadd.simps C)
  then show ?thesis
    using c by (simp add: c_def b_def a_def)
qed

lemma scaler_mono:
  assumes "v1 \<le> v2"
  shows "round_val (- (1 / 2)
           + round_val (round_val (v1 + 30) * (7543529375845581 / 2251799813685248)))
         \<le> round_val (- (1 / 2)
           + round_val (round_val (v2 + 30) * (7543529375845581 / 2251799813685248)))"
  using assms by (intro round_val_mono add_left_mono mult_right_mono) simp_all



text \<open>The interpolation at some inputs, each operation rounded as above.\<close>

lemma scaler_at_m30: "volume_scaler (Fin (- 30)) = Fin (- (1 / 2))"
proof -
  have 1: "round_double (- 30 + 30) = Fin 0"
    by simp
  have 2: "round_double (0 * (7543529375845581 / 2251799813685248)) = Fin 0"
    by simp
  have 3: "round_double (- (1 / 2) + 0) = Fin (- (1 / 2))"
    using round_eval [of "1 / 2" "- 1" "1 / 2 ^ 53" "2 ^ 52"]
    by (simp add: power_int_def power_one_over)
  show ?thesis
    by (simp only: volume_scaler_Fin 1 fmul.simps 2 fadd.simps 3)
qed

lemma scaler_at_0: "volume_scaler (Fin 0) = Fin 100"
proof -
  have 1: "round_double (0 + 30) = Fin 30"
    using round_eval [of 30 4 "1 / 2 ^ 48" "15 * 2 ^ 49"]
    by (simp add: power_int_def power_one_over)
  have 2: "round_double (30 * (7543529375845581 / 2251799813685248)) = Fin (201 / 2)"
    using round_eval [of "30 * (7543529375845581 / 2251799813685248)" 6 "1 / 2 ^ 46" "201 * 2 ^ 45"]
    by (simp add: power_int_def power_one_over)
  have 3: "round_double (- (1 / 2) + 201 / 2) = Fin 100"
    using round_eval [of 100 6 "1 / 2 ^ 46" "25 * 2 ^ 48"]
    by (simp add: power_int_def power_one_over)
  show ?thesis
    by (simp only: volume_scaler_Fin 1 fmul.simps 2 fadd.simps 3)
qed

lemma scaler_at_tiny: "volume_scaler (Fin (- (1 / 2 ^ 60))) = Fin 100"
proof -
  have 1: "round_double (- (1 / 2 ^ 60) + 30) = Fin 30"
    using round_eval [of "30 - 1 / 2 ^ 60" 4 "1 / 2 ^ 48" "15 * 2 ^ 49"]
    by (simp add: power_int_def power_one_over)
  have 2: "round_double (30 * (7543529375845581 / 2251799813685248)) = Fin (201 / 2)"
    using round_eval [of "30 * (7543529375845581 / 2251799813685248)" 6 "1 / 2 ^ 46" "201 * 2 ^ 45"]
    by (simp add: power_int_def power_one_over)
  have 3: "round_double (- (1 / 2) + 201 / 2) = Fin 100"
    using round_eval [of 100 6 "1 / 2 ^ 46" "25 * 2 ^ 48"]
    by (simp add: power_int_def power_one_over)
  show ?thesis
    by (simp only: volume_scaler_Fin 1 fmul.simps 2 fadd.simps 3)
qed



lemma scaler_at_m10: "volume_scaler (Fin (- 10)) = Fin (133 / 2)"
proof -
  have 1: "round_double (- 10 + 30) = Fin 20"
    using round_eval [of 20 4 "1 / 2 ^ 48" "5 * 2 ^ 50"]
    by (simp add: power_int_def power_one_over)
  have 2: "round_double (20 * (7543529375845581 / 2251799813685248)) = Fin 67"
    using round_eval [of "20 * (7543529375845581 / 2251799813685248)" 6 "1 / 2 ^ 46" "67 * 2 ^ 46"]
    by (simp add: power_int_def power_one_over)
  have 3: "round_double (- (1 / 2) + 67) = Fin (133 / 2)"
    using round_eval [of "133 / 2" 6 "1 / 2 ^ 46" "133 * 2 ^ 45"]
    by (simp add: power_int_def power_one_over)
  show ?thesis
    by (simp only: volume_scaler_Fin 1 fmul.simps 2 fadd.simps 3)
qed

lemma scaler_at_m20: "volume_scaler (Fin (- 20)) = Fin 33"
proof -
  have 1: "round_double (- 20 + 30) = Fin 10"
    using round_eval [of 10 3 "1 / 2 ^ 49" "5 * 2 ^ 50"]
    by (simp add: power_int_def power_one_over)
  have 2: "round_double (10 * (7543529375845581 / 2251799813685248)) = Fin (67 / 2)"
    using round_eval [of "10 * (7543529375845581 / 2251799813685248)" 5 "1 / 2 ^ 47" "67 * 2 ^ 46"]
    by (simp add: power_int_def power_one_over)
  have 3: "round_double (- (1 / 2) + 67 / 2) = Fin 33"
    using round_eval [of 33 5 "1 / 2 ^ 47" "33 * 2 ^ 47"]
    by (simp add: power_int_def power_one_over)
  show ?thesis
    by (simp only: volume_scaler_Fin 1 fmul.simps 2 fadd.simps 3)
qed

section \<open>Properties of the handlers\<close>

lemma form_subtopic_topic_inj [simp]:
  "form_subtopic_topic cfg a = form_subtopic_topic cfg b \<longleftrightarrow> a = b"
  by (simp add: form_subtopic_topic_def)

lemma outcome_case_id [simp]:
  "(case x of Returns s \<Rightarrow> Returns s | Raises e s \<Rightarrow> Raises e s) = x"
  by (cases x) simp_all

lemma on_message_cases:
  "on_message cfg topic payload s =
     (if topic = form_subtopic_topic cfg ''artist'' then send_and_store_playing_metadata ''artist'' payload s
      else if topic = form_subtopic_topic cfg ''album'' then send_and_store_playing_metadata ''album'' payload s
      else if topic = form_subtopic_topic cfg ''genre'' then send_and_store_playing_metadata ''genre'' payload s
      else if topic = form_subtopic_topic cfg ''title'' then send_and_store_playing_metadata ''title'' payload s
      else if topic = form_subtopic_topic cfg ''play_start'' then send_play_event ''play_start'' s
      else if topic = form_subtopic_topic cfg ''play_end'' then send_play_event ''play_end'' s
      else if topic = form_subtopic_topic cfg ''play_flush'' then send_play_event ''play_flush'' s
      else if topic = form_subtopic_topic cfg ''play_resume'' then send_play_event ''play_resume'' s
      else if topic = form_subtopic_topic cfg ''volume'' then send_volume_event ''volume'' payload s
      else if topic = form_subtopic_topic cfg ''cover'' then cover_event cfg payload s
      else Returns s)"
  by (simp add: on_message_def cong: outcome.case_cong)

lemmas parse_defs =
  decode_ascii_def split_comma_def py_float_def strip_def is_space_def byte_def is_digit_def
  parse_sign_def lower_def parse_decimal_def parse_exponent_def digits_val_def pow10_def Let_def

lemma trunc_50 [simp]: "trunc 50 = 50"
  by (simp add: trunc_def)

lemma utf8_ex: "decode_utf8 ''Nina'' = Inr [78, 105, 110, 97]"
  by (simp add: decode_utf8_def byte_def)

subsection \<open>The interpolator\<close>

lemma make_interpolator_returns:
  "make_interpolator (Fin (- 30)) (Fin 0) (Fin (- (1 / 2))) (Fin 100) = Inr volume_scaler"
  by (simp add: volume_scaler_eq make_interpolator_volume)

text \<open>
  C9 (as the code has it): the interpolator built with source range [-30, 0] and
  destination range [-0.5, 100] computes in binary64. On the source range it is
  monotonic: for all \<open>v1 \<le> v2\<close> in [-30, 0] the results are finite, lie in
  [-0.5, 100] and satisfy \<open>interpolate(v1) \<le> interpolate(v2)\<close>; the endpoints map
  exactly, -30 to -0.5 and 0 to 100.
\<close>

theorem volume_scaler_monotonic:
  assumes "- 30 \<le> v1" and "v1 \<le> v2" and "v2 \<le> 0"
  shows "make_interpolator (Fin (- 30)) (Fin 0) (Fin (- (1 / 2))) (Fin 100) = Inr volume_scaler
         \<and> (\<exists>r1 r2. volume_scaler (Fin v1) = Fin r1 \<and> volume_scaler (Fin v2) = Fin r2
                \<and> r1 \<le> r2 \<and> - (1 / 2) \<le> r1 \<and> r2 \<le> 100)
         \<and> volume_scaler (Fin (- 30)) = Fin (- (1 / 2))
         \<and> volume_scaler (Fin 0) = Fin 100"
proof -
  have r1: "- 30 \<le> v1" "v1 \<le> 0" and r2: "- 30 \<le> v2" "v2 \<le> 0"
    using assms by simp_all
  from scaler_in_range [OF r1] scaler_in_range [OF r2] scaler_mono [OF assms(2)]
  have "\<exists>r1 r2. volume_scaler (Fin v1) = Fin r1 \<and> volume_scaler (Fin v2) = Fin r2
                \<and> r1 \<le> r2 \<and> - (1 / 2) \<le> r1 \<and> r2 \<le> 100"
    by blast
  then show ?thesis
    by (simp add: scaler_at_m30 scaler_at_0 make_interpolator_returns)
qed

theorem volume_scaler_monotonic_witness:
  "- 30 \<le> (- 20 :: rat) \<and> (- 20 :: rat) \<le> - 10 \<and> (- 10 :: rat) \<le> 0
   \<and> volume_scaler (Fin (- 20)) = Fin 33 \<and> volume_scaler (Fin (- 10)) = Fin (133 / 2)
   \<and> (\<exists>r1 r2. volume_scaler (Fin (- 20)) = Fin r1 \<and> volume_scaler (Fin (- 10)) = Fin r2
          \<and> r1 \<le> r2 \<and> - (1 / 2) \<le> r1 \<and> r2 \<le> 100)"
  using volume_scaler_monotonic [of "- 20" "- 10"]
  by (simp add: scaler_at_m20 scaler_at_m10)

text \<open>
  C9 fails as stated: the interpolator is not strictly increasing on the source range.
  The binary64 values \<open>- (1 / 2 ^ 60)\<close> and 0 both lie in [-30, 0], and both are
  mapped to 100.0, because \<open>30 - 1 / 2 ^ 60\<close> rounds to 30.0.
\<close>

theorem interpolator_not_strict:
  "make_interpolator (Fin (- 30)) (Fin 0) (Fin (- (1 / 2))) (Fin 100) = Inr volume_scaler
   \<and> round_double (- (1 / 2 ^ 60)) = Fin (- (1 / 2 ^ 60))
   \<and> - 30 \<le> (- (1 / 2 ^ 60) :: rat) \<and> (- (1 / 2 ^ 60) :: rat) < 0
   \<and> volume_scaler (Fin (- (1 / 2 ^ 60))) = Fin 100
   \<and> volume_scaler (Fin 0) = Fin 100"
proof -
  have "round_double (- (1 / 2 ^ 60)) = Fin (- (1 / 2 ^ 60))"
    using round_eval [of "1 / 2 ^ 60" "- 60" "1 / 2 ^ 112" "2 ^ 52"]
    by (simp add: power_int_def power_one_over)
  then show ?thesis
    using scaler_at_tiny scaler_at_0 make_interpolator_returns by simp
qed

subsection \<open>Remote commands\<close>

text \<open>
  C6: the token \<open>stop\<close> is published, as it is, to the topic \<open>root/remote\<close>, and the
  call returns; a token outside the list of known remote commands raises the ValueError
  that names it, and the state in which it raises is the state of the call: nothing has
  been published.
\<close>

theorem issueCommand_stop_and_unknown:
  "issueCommand cfg ''stop'' s
     = Returns (s\<lparr>published := published s @ [(TOPIC_ROOT cfg @ ''/remote'', ''stop'')]\<rparr>)
   \<and> handle_stop cfg s = issueCommand cfg ''stop'' s
   \<and> (token \<notin> set known_remote_commands \<longrightarrow>
        generate_remote_command cfg token = Inl (ValueError (''Unknown remote command: '' @ token))
        \<and> issueCommand cfg token s = Raises (ValueError (''Unknown remote command: '' @ token)) s
        \<and> published (state_of (issueCommand cfg token s)) = published s)"
  by (simp add: issueCommand_def generate_remote_command_def handle_stop_def
        known_remote_commands_def mqttc_publish_def)

theorem issueCommand_stop_and_unknown_witness:
  "''not_a_real_command'' \<notin> set known_remote_commands
   \<and> issueCommand cfg0 ''not_a_real_command'' init_state
       = Raises (ValueError ''Unknown remote command: not_a_real_command'') init_state
   \<and> published init_state = []
   \<and> issueCommand cfg0 ''stop'' init_state
       = Returns (init_state\<lparr>published := [(''shairport/remote'', ''stop'')]\<rparr>)"
  using issueCommand_stop_and_unknown [of cfg0 init_state "''not_a_real_command''"]
  by (simp add: known_remote_commands_def cfg0_def init_state_def)

lemma issueCommand_known:
  "token \<in> set known_remote_commands \<Longrightarrow>
   issueCommand cfg token s
     = Returns (s\<lparr>published := published s @ [(TOPIC_ROOT cfg @ ''/remote'', token)]\<rparr>)"
  by (simp add: issueCommand_def generate_remote_command_def mqttc_publish_def)

text \<open>
  C10: each of the thirteen remote handlers passes a token of the known list, so none of
  them can raise the unknown-command error, and each appends exactly one publish to the
  topic \<open>root/remote\<close>.
\<close>

theorem remote_handlers_publish_once:
  "handle_previtem cfg s = Returns (s\<lparr>published := published s @ [(TOPIC_ROOT cfg @ ''/remote'', ''previtem'')]\<rparr>)
   \<and> handle_nextitem cfg s = Returns (s\<lparr>published := published s @ [(TOPIC_ROOT cfg @ ''/remote'', ''nextitem'')]\<rparr>)
   \<and> handle_stop cfg s = Returns (s\<lparr>published := published s @ [(TOPIC_ROOT cfg @ ''/remote'', ''stop'')]\<rparr>)
   \<and> handle_pause cfg s = Returns (s\<lparr>published := published s @ [(TOPIC_ROOT cfg @ ''/remote'', ''pause'')]\<rparr>)
   \<and> handle_playpause cfg s = Returns (s\<lparr>published := published s @ [(TOPIC_ROOT cfg @ ''/remote'', ''playpause'')]\<rparr>)
   \<and> handle_play cfg s = Returns (s\<lparr>published := published s @ [(TOPIC_ROOT cfg @ ''/remote'', ''play'')]\<rparr>)
   \<and> handle_playresume cfg s = Returns (s\<lparr>published := published s @ [(TOPIC_ROOT cfg @ ''/remote'', ''playresume'')]\<rparr>)
   \<and> handle_mutetoggle cfg s = Returns (s\<lparr>published := published s @ [(TOPIC_ROOT cfg @ ''/remote'', ''mutetoggle'')]\<rparr>)
   \<and> handle_volumedown cfg s = Returns (s\<lparr>published := published s @ [(TOPIC_ROOT cfg @ ''/remote'', ''volumedown'')]\<rparr>)
   \<and> handle_volumeup cfg s = Returns (s\<lparr>published := published s @ [(TOPIC_ROOT cfg @ ''/remote'', ''volumeup'')]\<rparr>)
   \<and> handle_beginrew cfg s = Returns (s\<lparr>published := published s @ [(TOPIC_ROOT cfg @ ''/remote'', ''beginrew'')]\<rparr>)
   \<and> handle_beginff cfg s = Returns (s\<lparr>published := published s @ [(TOPIC_ROOT cfg @ ''/remote'', ''beginff'')]\<rparr>)
   \<and> handle_shuffle_songs cfg s = Returns (s\<lparr>published := published s @ [(TOPIC_ROOT cfg @ ''/remote'', ''shuffle_songs'')]\<rparr>)
   \<and> set [''previtem'', ''nextitem'', ''stop'', ''pause'', ''playpause'', ''play'', ''playresume'',
          ''mutetoggle'', ''volumedown'', ''volumeup'', ''beginrew'', ''beginff'', ''shuffle_songs'']
       \<subseteq> set known_remote_commands"
proof -
  have k: "set [''previtem'', ''nextitem'', ''stop'', ''pause'', ''playpause'', ''play'', ''playresume'',
          ''mutetoggle'', ''volumedown'', ''volumeup'', ''beginrew'', ''beginff'', ''shuffle_songs'']
       \<subseteq> set known_remote_commands"
    by (simp add: known_remote_commands_def)
  show ?thesis
    unfolding handle_previtem_def handle_nextitem_def handle_stop_def handle_pause_def
      handle_playpause_def handle_play_def handle_playresume_def handle_mutetoggle_def
      handle_volumedown_def handle_volumeup_def handle_beginrew_def handle_beginff_def
      handle_shuffle_songs_def
    using k by (simp add: issueCommand_known)
qed

subsection \<open>Cover art\<close>

lemma b64_examples:
  "b64encode [CHR 0xFF, CHR 0xD8, CHR 0xFF, CHR 0xE0] = ''/9j/4A==''
   \<and> b64encode [CHR 0x89, CHR 0x50, CHR 0x4E, CHR 0x47, CHR 0x0D, CHR 0x0A, CHR 0x1A, CHR 0x0D]
        = ''iVBORw0KGg0=''
   \<and> b64encode ''GIF89a'' = ''R0lGODlh''
   \<and> b64encode ''png'' = ''cG5n''"
  by (simp add: b64_char_def b64_alphabet_def byte_def)

text \<open>
  C5: a cover message with an empty payload yields the default image (the base64 text of
  the default image file) with the mime type image/png; a non-empty payload is
  base64-encoded, with mime image/jpeg when it starts with FF D8, image/png when it starts
  with 89 50 4E 47 0D 0A 1A 0D, and image/jpg otherwise. The encoding is the standard
  base64 with padding: the octets FF D8 FF E0 give \<open>/9j/4A==\<close>, the eight octets of the
  PNG signature give \<open>iVBORw0KGg0=\<close>, the six octets \<open>GIF89a\<close> give \<open>R0lGODlh\<close>,
  and the default image file with the octets \<open>png\<close> gives \<open>cG5n\<close>.
\<close>

theorem cover_art_mime_and_encoding:
  "on_message cfg (form_subtopic_topic cfg ''cover'') payload s =
     (let m = (if payload = [] then ImageData (default_image_b64_str cfg) default_image_mime_type
               else ImageData (b64encode payload)
                      (if prefix [CHR 0xFF, CHR 0xD8] payload then ''image/jpeg''
                       else if prefix [CHR 0x89, CHR 0x50, CHR 0x4E, CHR 0x47, CHR 0x0D, CHR 0x0A, CHR 0x1A, CHR 0x0D] payload
                       then ''image/png'' else ''image/jpg''))
      in Returns (socketio_emit ''cover_art'' m None
                (s\<lparr>SAVED_INFO := AList.update ''cover_art'' m (SAVED_INFO s)\<rparr>)))
   \<and> default_image_b64_str cfg = b64encode (image_octets cfg)
   \<and> default_image_mime_type = ''image/png''
   \<and> on_message cfg0 (form_subtopic_topic cfg0 ''cover'') [CHR 0xFF, CHR 0xD8, CHR 0xFF, CHR 0xE0] init_state
       = Returns \<lparr>SAVED_INFO = [(''cover_art'', ImageData ''/9j/4A=='' ''image/jpeg'')],
                  emitted = [\<lparr>ev_name = ''cover_art'', ev_msg = ImageData ''/9j/4A=='' ''image/jpeg'',
                              ev_to = None\<rparr>],
                  published = []\<rparr>
   \<and> on_message cfg0 (form_subtopic_topic cfg0 ''cover'')
        [CHR 0x89, CHR 0x50, CHR 0x4E, CHR 0x47, CHR 0x0D, CHR 0x0A, CHR 0x1A, CHR 0x0D] init_state
       = Returns \<lparr>SAVED_INFO = [(''cover_art'', ImageData ''iVBORw0KGg0='' ''image/png'')],
                  emitted = [\<lparr>ev_name = ''cover_art'', ev_msg = ImageData ''iVBORw0KGg0='' ''image/png'',
                              ev_to = None\<rparr>],
                  published = []\<rparr>
   \<and> on_message cfg0 (form_subtopic_topic cfg0 ''cover'') ''GIF89a'' init_state
       = Returns \<lparr>SAVED_INFO = [(''cover_art'', ImageData ''R0lGODlh'' ''image/jpg'')],
                  emitted = [\<lparr>ev_name = ''cover_art'', ev_msg = ImageData ''R0lGODlh'' ''image/jpg'',
                              ev_to = None\<rparr>],
                  published = []\<rparr>
   \<and> on_message cfg0 (form_subtopic_topic cfg0 ''cover'') [] init_state
       = Returns \<lparr>SAVED_INFO = [(''cover_art'', ImageData ''cG5n'' ''image/png'')],
                  emitted = [\<lparr>ev_name = ''cover_art'', ev_msg = ImageData ''cG5n'' ''image/png'',
                              ev_to = None\<rparr>],
                  published = []\<rparr>"
proof -
  have general: "on_message cfg (form_subtopic_topic cfg ''cover'') payload s =
     (let m = (if payload = [] then ImageData (default_image_b64_str cfg) default_image_mime_type
               else ImageData (b64encode payload)
                      (if prefix [CHR 0xFF, CHR 0xD8] payload then ''image/jpeg''
                       else if prefix [CHR 0x89, CHR 0x50, CHR 0x4E, CHR 0x47, CHR 0x0D, CHR 0x0A, CHR 0x1A, CHR 0x0D] payload
                       then ''image/png'' else ''image/jpg''))
      in Returns (socketio_emit ''cover_art'' m None
                (s\<lparr>SAVED_INFO := AList.update ''cover_art'' m (SAVED_INFO s)\<rparr>)))"
    by (simp add: on_message_cases cover_event_def guessImageMime_def Let_def
          default_image_b64_str_def default_image_mime_type_def)
  have jpeg: "on_message cfg0 (form_subtopic_topic cfg0 ''cover'') [CHR 0xFF, CHR 0xD8, CHR 0xFF, CHR 0xE0] init_state
       = Returns \<lparr>SAVED_INFO = [(''cover_art'', ImageData ''/9j/4A=='' ''image/jpeg'')],
                  emitted = [\<lparr>ev_name = ''cover_art'', ev_msg = ImageData ''/9j/4A=='' ''image/jpeg'',
                              ev_to = None\<rparr>],
                  published = []\<rparr>"
    using b64_examples
    by (simp add: on_message_cases cover_event_def guessImageMime_def Let_def init_state_def
          socketio_emit_def)
  have png: "on_message cfg0 (form_subtopic_topic cfg0 ''cover'')
        [CHR 0x89, CHR 0x50, CHR 0x4E, CHR 0x47, CHR 0x0D, CHR 0x0A, CHR 0x1A, CHR 0x0D] init_state
       = Returns \<lparr>SAVED_INFO = [(''cover_art'', ImageData ''iVBORw0KGg0='' ''image/png'')],
                  emitted = [\<lparr>ev_name = ''cover_art'', ev_msg = ImageData ''iVBORw0KGg0='' ''image/png'',
                              ev_to = None\<rparr>],
                  published = []\<rparr>"
    using b64_examples
    by (simp add: on_message_cases cover_event_def guessImageMime_def Let_def init_state_def
          socketio_emit_def)
  have other: "on_message cfg0 (form_subtopic_topic cfg0 ''cover'') ''GIF89a'' init_state
       = Returns \<lparr>SAVED_INFO = [(''cover_art'', ImageData ''R0lGODlh'' ''image/jpg'')],
                  emitted = [\<lparr>ev_name = ''cover_art'', ev_msg = ImageData ''R0lGODlh'' ''image/jpg'',
                              ev_to = None\<rparr>],
                  published = []\<rparr>"
    using b64_examples
    by (simp add: on_message_cases cover_event_def guessImageMime_def Let_def init_state_def
          socketio_emit_def)
  have empty: "on_message cfg0 (form_subtopic_topic cfg0 ''cover'') [] init_state
       = Returns \<lparr>SAVED_INFO = [(''cover_art'', ImageData ''cG5n'' ''image/png'')],
                  emitted = [\<lparr>ev_name = ''cover_art'', ev_msg = ImageData ''cG5n'' ''image/png'',
                              ev_to = None\<rparr>],
                  published = []\<rparr>"
    using b64_examples
    by (simp add: on_message_cases cover_event_def Let_def init_state_def socketio_emit_def
          default_image_b64_str_def default_image_mime_type_def cfg0_def)
  show ?thesis
    using general jpeg png other empty
    by (simp only: default_image_b64_str_def default_image_mime_type_def simp_thms)
qed

subsection \<open>The resend request\<close>

lemma replay_loop_eq:
  "replay_loop xs s = s\<lparr>emitted := emitted s @ map replayed xs\<rparr>"
  by (induction xs arbitrary: s) (auto simp: socketio_emit_def replayed_def)

lemma handle_my_custom_event_eq:
  "handle_my_custom_event (JDict d) s
     = Returns (s\<lparr>emitted := emitted s @ map replayed (SAVED_INFO s)\<rparr>)"
  by (simp add: handle_my_custom_event_def replay_loop_eq)

lemma recipients_replayed [simp]: "recipients sessions (replayed km) = sessions"
  by (simp add: recipients_def replayed_def)

lemma ev_name_replayed [simp]: "ev_name (replayed km) = fst km"
  by (simp add: replayed_def)

text \<open>
  C3 (as the code has it): a resend request with a dictionary payload emits every cached
  event, in the order of the cache, through the same \<open>socketio.emit\<close> without \<open>to\<close>
  that the broadcast of a new event uses, so each of them goes to every connected
  session, not to the requesting one alone; the cache and the publishes are left as they
  were. A resend request whose payload is not a dictionary raises AttributeError before
  the loop, and nothing is emitted.
\<close>

theorem replay_is_broadcast:
  "(\<exists>s'. handle_my_custom_event (JDict d) s = Returns s'
         \<and> emitted s' = emitted s @ map replayed (SAVED_INFO s)
         \<and> SAVED_INFO s' = SAVED_INFO s \<and> published s' = published s
         \<and> map (recipients sessions) (drop (length (emitted s)) (emitted s'))
             = replicate (length (SAVED_INFO s)) sessions)
   \<and> handle_my_custom_event JOther s = Raises AttributeError s"
  by (simp add: handle_my_custom_event_eq map_replicate_const comp_def)
    (simp add: handle_my_custom_event_def)

text \<open>
  C3 fails as stated: with sessions 1 and 2 connected and one cached event, the replay that
  session 1 asks for is also delivered to session 2.
\<close>

theorem replay_reaches_other_session:
  "handle_my_custom_event (JDict [(''data'', ''hello'')])
     \<lparr>SAVED_INFO = [(''playing_artist'', TextData [65])], emitted = [], published = []\<rparr>
   = Returns \<lparr>SAVED_INFO = [(''playing_artist'', TextData [65])],
              emitted = [\<lparr>ev_name = ''playing_artist'', ev_msg = TextData [65], ev_to = None\<rparr>],
              published = []\<rparr>
   \<and> recipients [1, 2] \<lparr>ev_name = ''playing_artist'', ev_msg = TextData [65], ev_to = None\<rparr>
       = [1, 2]"
  by (simp add: handle_my_custom_event_def socketio_emit_def recipients_def)

subsection \<open>Volume messages\<close>

text \<open>
  C4 (as the code has it): for a volume message whose payload is ASCII and splits into
  exactly four comma-separated fields, a first field that does not parse as a float gives
  the percentage 50, and the handler does not raise.
\<close>

theorem volume_fallback_four_fields:
  assumes "decode_ascii payload = Inr text"
    and "split_comma text = [a, b, c, d]"
    and "py_float a = None"
  shows "on_message cfg (form_subtopic_topic cfg ''volume'') payload s
           = Returns (socketio_emit ''volume'' (IntData 50) None s)"
  using assms by (simp add: on_message_cases send_volume_event_def)

lemma volume_ex1:
  "decode_ascii ''abc,1,2,3'' = Inr ''abc,1,2,3''
   \<and> split_comma ''abc,1,2,3'' = [''abc'', ''1'', ''2'', ''3'']
   \<and> py_float ''abc'' = None"
  by (simp add: parse_defs)

theorem volume_fallback_four_fields_witness:
  "decode_ascii ''abc,1,2,3'' = Inr ''abc,1,2,3''
   \<and> split_comma ''abc,1,2,3'' = [''abc'', ''1'', ''2'', ''3'']
   \<and> py_float ''abc'' = None
   \<and> on_message cfg0 (form_subtopic_topic cfg0 ''volume'') ''abc,1,2,3'' init_state
       = Returns (socketio_emit ''volume'' (IntData 50) None init_state)"
  using volume_fallback_four_fields
          [of "''abc,1,2,3''" "''abc,1,2,3''" "''abc''" "''1''" "''2''" "''3''" cfg0 init_state]
        volume_ex1
  by simp

lemma volume_ex0:
  "decode_ascii ''abc'' = Inr ''abc'' \<and> split_comma ''abc'' = [''abc'']"
  by (simp add: parse_defs)

text \<open>
  C4 fails as stated: the payload \<open>abc\<close> has one field, and the tuple assignment raises
  ValueError before the \<open>try\<close>; no event is emitted.
\<close>

theorem volume_unpack_raises:
  "on_message cfg0 (form_subtopic_topic cfg0 ''volume'') ''abc'' init_state
     = Raises (ValueError ''not enough values to unpack'') init_state"
  by (simp add: on_message_cases send_volume_event_def volume_ex0)












subsection \<open>The dispatch on the topic\<close>

lemma text_branch:
  "sub \<in> set text_subtopics \<Longrightarrow>
   on_message cfg (form_subtopic_topic cfg sub) payload s
     = send_and_store_playing_metadata sub payload s"
  by (auto simp: text_subtopics_def on_message_cases)

lemma play_branch:
  "sub \<in> set play_subtopics \<Longrightarrow>
   on_message cfg (form_subtopic_topic cfg sub) payload s = send_play_event sub s"
  by (auto simp: play_subtopics_def on_message_cases)

lemma unhandled_topic:
  "topic \<notin> form_subtopic_topic cfg ` set handled_subtopics \<Longrightarrow>
   on_message cfg topic payload s = Returns s"
  by (simp add: handled_subtopics_def text_subtopics_def play_subtopics_def on_message_cases)

lemma volume_branch_emits:
  "send_volume_event name payload s = Returns s'
   \<Longrightarrow> \<exists>n. s' = socketio_emit name (IntData n) None s"
  by (auto simp: send_volume_event_def Let_def split: sum.splits list.splits)

text \<open>
  C2 (as the code has it): a message on \<open>root/artist\<close>, \<open>root/album\<close>,
  \<open>root/genre\<close> or \<open>root/title\<close> whose payload is valid UTF-8 is emitted, and
  cached, under \<open>playing_<subtopic>\<close> with the decoded payload; a message on one of
  the four play subtopics is emitted under the subtopic's own name; a cover message is
  emitted and cached under \<open>cover_art\<close>; a volume message that is handled without an
  exception emits one event named \<open>volume\<close>; a message on any other topic produces no
  event and changes no state. The subtopics songalbum, client_ip, active_start and
  active_end are subscribed to, but have no branch in \<open>on_message\<close>, so they are among
  the other topics.
\<close>

theorem classify_dispatch:
  "(sub \<in> set text_subtopics \<longrightarrow> decode_utf8 payload = Inr t \<longrightarrow>
      on_message cfg (form_subtopic_topic cfg sub) payload s
        = Returns (socketio_emit (''playing_'' @ sub) (TextData t) None
                 (s\<lparr>SAVED_INFO := AList.update (''playing_'' @ sub) (TextData t) (SAVED_INFO s)\<rparr>)))
   \<and> (sub \<in> set play_subtopics \<longrightarrow>
        on_message cfg (form_subtopic_topic cfg sub) payload s
          = Returns (socketio_emit sub (PlayName sub) None s))
   \<and> (\<exists>m. on_message cfg (form_subtopic_topic cfg ''cover'') payload s
             = Returns (socketio_emit ''cover_art'' m None
                      (s\<lparr>SAVED_INFO := AList.update ''cover_art'' m (SAVED_INFO s)\<rparr>)))
   \<and> (\<forall>s'. on_message cfg (form_subtopic_topic cfg ''volume'') payload s = Returns s' \<longrightarrow>
             (\<exists>n. s' = socketio_emit ''volume'' (IntData n) None s))
   \<and> (topic \<notin> form_subtopic_topic cfg ` set handled_subtopics \<longrightarrow>
        on_message cfg topic payload s = Returns s)
   \<and> set [''songalbum'', ''client_ip'', ''active_start'', ''active_end'']
        \<subseteq> set (subtopic_list True) - set handled_subtopics"
proof -
  have a: "sub \<in> set text_subtopics \<longrightarrow> decode_utf8 payload = Inr t \<longrightarrow>
      on_message cfg (form_subtopic_topic cfg sub) payload s
        = Returns (socketio_emit (''playing_'' @ sub) (TextData t) None
                 (s\<lparr>SAVED_INFO := AList.update (''playing_'' @ sub) (TextData t) (SAVED_INFO s)\<rparr>))"
    by (simp add: text_branch send_and_store_playing_metadata_def Let_def)
  have b: "sub \<in> set play_subtopics \<longrightarrow>
        on_message cfg (form_subtopic_topic cfg sub) payload s
          = Returns (socketio_emit sub (PlayName sub) None s)"
    by (simp add: play_branch send_play_event_def)
  have c: "\<exists>m. on_message cfg (form_subtopic_topic cfg ''cover'') payload s
             = Returns (socketio_emit ''cover_art'' m None
                      (s\<lparr>SAVED_INFO := AList.update ''cover_art'' m (SAVED_INFO s)\<rparr>))"
    by (cases "payload = []") (auto simp: on_message_cases cover_event_def Let_def)
  have d: "\<forall>s'. on_message cfg (form_subtopic_topic cfg ''volume'') payload s = Returns s' \<longrightarrow>
             (\<exists>n. s' = socketio_emit ''volume'' (IntData n) None s)"
    by (simp add: on_message_cases volume_branch_emits)
  have e: "topic \<notin> form_subtopic_topic cfg ` set handled_subtopics \<longrightarrow>
        on_message cfg topic payload s = Returns s"
    by (simp add: unhandled_topic)
  have f: "set [''songalbum'', ''client_ip'', ''active_start'', ''active_end'']
        \<subseteq> set (subtopic_list True) - set handled_subtopics"
    by (simp add: subtopic_list_def known_play_metadata_types_def known_core_metadata_types_def
          handled_subtopics_def text_subtopics_def play_subtopics_def)
  from a b c d e f show ?thesis by blast
qed

theorem classify_dispatch_witness:
  "''artist'' \<in> set text_subtopics \<and> decode_utf8 ''Nina'' = Inr [78, 105, 110, 97]
   \<and> on_message cfg0 (form_subtopic_topic cfg0 ''artist'') ''Nina'' init_state
       = Returns \<lparr>SAVED_INFO = [(''playing_artist'', TextData [78, 105, 110, 97])],
                  emitted = [\<lparr>ev_name = ''playing_artist'', ev_msg = TextData [78, 105, 110, 97],
                              ev_to = None\<rparr>],
                  published = []\<rparr>
   \<and> ''shairport/songalbum'' \<notin> form_subtopic_topic cfg0 ` set handled_subtopics
   \<and> on_message cfg0 ''shairport/songalbum'' ''Nina'' init_state = Returns init_state"
  using classify_dispatch [of "''artist''" "''Nina''" "[78, 105, 110, 97]" cfg0 init_state
          "''shairport/songalbum''"]
        utf8_ex
  by (simp add: text_subtopics_def handled_subtopics_def play_subtopics_def
        form_subtopic_topic_def cfg0_def init_state_def socketio_emit_def)

text \<open>
  C2 fails as stated: a message on \<open>root/songalbum\<close> produces no event.
\<close>

theorem songalbum_message_is_dropped:
  "on_message cfg0 (form_subtopic_topic cfg0 ''songalbum'') ''Kind of Blue'' init_state
     = Returns init_state
   \<and> emitted init_state = []"
  by (simp add: on_message_cases init_state_def)

subsection \<open>The cache over a run of messages\<close>

lemma on_message_raises_same:
  "on_message cfg topic payload s = Raises e s' \<Longrightarrow> s' = s"
  by (auto simp: on_message_cases send_and_store_playing_metadata_def send_play_event_def
        send_volume_event_def cover_event_def Let_def
      split: if_splits sum.splits list.splits prod.splits)

lemma stored_update:
  assumes "(sub, key) \<in> set stored_subtopics"
    and "on_message cfg (form_subtopic_topic cfg sub) payload s = Returns s'"
  shows "\<exists>v. v = (if sub = ''cover''
                  then (if payload = []
                        then ImageData (default_image_b64_str cfg) default_image_mime_type
                        else ImageData (b64encode payload) (guessImageMime payload))
                  else TextData (projr (decode_utf8 payload)))
             \<and> SAVED_INFO s' = AList.update key v (SAVED_INFO s)
             \<and> emitted s' = emitted s @ [replayed (key, v)]"
  using assms
  by (auto simp: stored_subtopics_def on_message_cases send_and_store_playing_metadata_def
        cover_event_def socketio_emit_def replayed_def Let_def split: sum.splits if_splits)

lemma on_message_effect:
  assumes "s' = state_of (on_message cfg topic payload s)"
  shows "SAVED_INFO s' = SAVED_INFO s
         \<or> (\<exists>sub key v. (sub, key) \<in> set stored_subtopics \<and> topic = form_subtopic_topic cfg sub
               \<and> SAVED_INFO s' = AList.update key v (SAVED_INFO s))"
proof (cases "on_message cfg topic payload s")
  case (Raises e s1)
  then have "s1 = s" by (rule on_message_raises_same)
  then have "s' = s"
    using assms Raises by simp
  then show ?thesis by simp
next
  case (Returns s1)
  then have s1: "s1 = s'" using assms by simp
  show ?thesis
  proof (cases "topic \<in> form_subtopic_topic cfg ` fst ` set stored_subtopics")
    case True
    then obtain sub key where sk: "(sub, key) \<in> set stored_subtopics"
      and t: "topic = form_subtopic_topic cfg sub"
      by auto
    with Returns s1 stored_update [OF sk, of cfg payload s s'] show ?thesis
      by blast
  next
    case False
    then have "SAVED_INFO s' = SAVED_INFO s"
      using Returns s1
      by (auto simp: stored_subtopics_def on_message_cases send_play_event_def socketio_emit_def
            dest!: volume_branch_emits split: if_splits)
    then show ?thesis ..
  qed
qed

lemma stored_keys_inj:
  "(sub, key) \<in> set stored_subtopics \<Longrightarrow> (sub', key) \<in> set stored_subtopics \<Longrightarrow> sub' = sub"
  by (auto simp: stored_subtopics_def)

lemma on_message_keeps_key:
  assumes "(sub, key) \<in> set stored_subtopics"
    and "topic \<noteq> form_subtopic_topic cfg sub"
  shows "map_of (SAVED_INFO (state_of (on_message cfg topic payload s))) key
           = map_of (SAVED_INFO s) key"
  using on_message_effect [OF refl, of cfg topic payload s] assms
  by (auto simp: update_conv' dest: stored_keys_inj)



lemma on_messages_keeps_key:
  "(sub, key) \<in> set stored_subtopics \<Longrightarrow> list_all (\<lambda>m. fst m \<noteq> form_subtopic_topic cfg sub) ms
   \<Longrightarrow> map_of (SAVED_INFO (state_of (on_messages cfg ms s))) key = map_of (SAVED_INFO s) key"
proof (induction ms arbitrary: s)
  case Nil
  then show ?case by simp
next
  case (Cons m ms)
  obtain topic payload where m: "m = (topic, payload)" by (cases m)
  have t: "topic \<noteq> form_subtopic_topic cfg sub"
    using Cons.prems(2) by (simp add: m)
  have rest: "list_all (\<lambda>m. fst m \<noteq> form_subtopic_topic cfg sub) ms"
    using Cons.prems(2) by simp
  show ?case
  proof (cases "on_message cfg topic payload s")
    case (Raises e s1)
    then have "s1 = s" by (rule on_message_raises_same)
    then show ?thesis using Raises by (simp add: m)
  next
    case (Returns s1)
    then have "map_of (SAVED_INFO s1) key = map_of (SAVED_INFO s) key"
      using on_message_keeps_key [OF Cons.prems(1) t, of payload s] by simp
    moreover have "map_of (SAVED_INFO (state_of (on_messages cfg ms s1))) key
                     = map_of (SAVED_INFO s1) key"
      using Cons.IH [OF Cons.prems(1) rest] .
    ultimately show ?thesis
      using Returns by (simp add: m)
  qed
qed


lemma filter_replayed_none:
  "map_of al key = None \<Longrightarrow> filter (\<lambda>e. ev_name e = key) (map replayed al) = []"
  by (induction al) (auto split: if_splits)

lemma on_message_no_cover_event:
  assumes "topic \<noteq> form_subtopic_topic cfg ''cover''"
  shows "filter (\<lambda>e. ev_name e = ''cover_art'')
           (emitted (state_of (on_message cfg topic payload s)))
         = filter (\<lambda>e. ev_name e = ''cover_art'') (emitted s)"
proof (cases "on_message cfg topic payload s")
  case (Raises e s1)
  then have "s1 = s" by (rule on_message_raises_same)
  then show ?thesis using Raises by simp
next
  case (Returns s1)
  then show ?thesis
    using assms
    by (auto simp: on_message_cases send_and_store_playing_metadata_def send_play_event_def
          socketio_emit_def Let_def
        split: if_splits sum.splits dest!: volume_branch_emits)
qed

lemma on_messages_no_cover_event:
  "list_all (\<lambda>m. fst m \<noteq> form_subtopic_topic cfg ''cover'') ms
   \<Longrightarrow> filter (\<lambda>e. ev_name e = ''cover_art'') (emitted (state_of (on_messages cfg ms s)))
       = filter (\<lambda>e. ev_name e = ''cover_art'') (emitted s)"
proof (induction ms arbitrary: s)
  case Nil
  then show ?case by simp
next
  case (Cons m ms)
  obtain topic payload where m: "m = (topic, payload)" by (cases m)
  have t: "topic \<noteq> form_subtopic_topic cfg ''cover''"
    using Cons.prems by (simp add: m)
  have rest: "list_all (\<lambda>m. fst m \<noteq> form_subtopic_topic cfg ''cover'') ms"
    using Cons.prems by simp
  show ?case
  proof (cases "on_message cfg topic payload s")
    case (Raises e s1)
    then have "s1 = s" by (rule on_message_raises_same)
    then show ?thesis using Raises by (simp add: m)
  next
    case (Returns s1)
    then have "filter (\<lambda>e. ev_name e = ''cover_art'') (emitted s1)
                 = filter (\<lambda>e. ev_name e = ''cover_art'') (emitted s)"
      using on_message_no_cover_event [OF t, of payload s] by simp
    then show ?thesis
      using Cons.IH [OF rest, of s1] Returns by (simp add: m)
  qed
qed

lemma artist_run:
  "state_of (on_messages cfg0 [(''shairport/artist'', ''Nina'')] init_state)
     = \<lparr>SAVED_INFO = [(''playing_artist'', TextData [78, 105, 110, 97])],
        emitted = [\<lparr>ev_name = ''playing_artist'', ev_msg = TextData [78, 105, 110, 97],
                    ev_to = None\<rparr>],
        published = []\<rparr>"
  by (simp add: on_message_cases send_and_store_playing_metadata_def utf8_ex init_state_def
        socketio_emit_def Let_def form_subtopic_topic_def cfg0_def)

text \<open>
  C7 (as the code has it): the cache starts empty, and it has no \<open>cover_art\<close> entry
  until a message on \<open>root/cover\<close> arrives. In every run of broker messages none of
  which is on \<open>root/cover\<close>, no cover-art event is emitted, and a replay emits none
  either; the default image and its mime type enter the cache under \<open>cover_art\<close> when
  a cover message with an empty payload arrives.
\<close>

theorem no_cover_art_until_cover_message:
  assumes "list_all (\<lambda>m. fst m \<noteq> form_subtopic_topic cfg ''cover'') ms"
    and "s = state_of (on_messages cfg ms init_state)"
  shows "SAVED_INFO init_state = []
         \<and> map_of (SAVED_INFO s) ''cover_art'' = None
         \<and> filter (\<lambda>e. ev_name e = ''cover_art'') (emitted s) = []
         \<and> (\<exists>s'. handle_my_custom_event (JDict d) s = Returns s'
                 \<and> filter (\<lambda>e. ev_name e = ''cover_art'') (emitted s') = [])
         \<and> (\<exists>s'. on_message cfg (form_subtopic_topic cfg ''cover'') [] s = Returns s'
                 \<and> map_of (SAVED_INFO s') ''cover_art''
                     = Some (ImageData (default_image_b64_str cfg) default_image_mime_type))"
proof -
  have c: "(''cover'', ''cover_art'') \<in> set stored_subtopics"
    by (simp add: stored_subtopics_def)
  have none: "map_of (SAVED_INFO s) ''cover_art'' = None"
    using on_messages_keeps_key [OF c assms(1), of init_state]
    by (simp add: assms(2) init_state_def)
  have quiet: "filter (\<lambda>e. ev_name e = ''cover_art'') (emitted s) = []"
    using on_messages_no_cover_event [OF assms(1), of init_state]
    by (simp add: assms(2) init_state_def)
  have replay: "\<exists>s'. handle_my_custom_event (JDict d) s = Returns s'
                 \<and> filter (\<lambda>e. ev_name e = ''cover_art'') (emitted s') = []"
    using quiet filter_replayed_none [OF none]
    by (simp add: handle_my_custom_event_eq)
  have arrives: "\<exists>s'. on_message cfg (form_subtopic_topic cfg ''cover'') [] s = Returns s'
                 \<and> map_of (SAVED_INFO s') ''cover_art''
                     = Some (ImageData (default_image_b64_str cfg) default_image_mime_type)"
    by (simp add: on_message_cases cover_event_def Let_def socketio_emit_def update_conv')
  have "SAVED_INFO init_state = []"
    by (simp add: init_state_def)
  with none quiet replay arrives show ?thesis
    by blast
qed

theorem no_cover_art_until_cover_message_witness:
  "list_all (\<lambda>m. fst m \<noteq> form_subtopic_topic cfg0 ''cover'') [(''shairport/artist'', ''Nina'')]
   \<and> state_of (on_messages cfg0 [(''shairport/artist'', ''Nina'')] init_state)
       = \<lparr>SAVED_INFO = [(''playing_artist'', TextData [78, 105, 110, 97])],
          emitted = [\<lparr>ev_name = ''playing_artist'', ev_msg = TextData [78, 105, 110, 97],
                      ev_to = None\<rparr>],
          published = []\<rparr>
   \<and> map_of [(''playing_artist'', TextData [78, 105, 110, 97])] ''cover_art'' = None
   \<and> (\<exists>s'. handle_my_custom_event (JDict [])
               \<lparr>SAVED_INFO = [(''playing_artist'', TextData [78, 105, 110, 97])],
                emitted = [\<lparr>ev_name = ''playing_artist'', ev_msg = TextData [78, 105, 110, 97],
                            ev_to = None\<rparr>],
                published = []\<rparr> = Returns s'
           \<and> filter (\<lambda>e. ev_name e = ''cover_art'') (emitted s') = [])"
  using no_cover_art_until_cover_message
          [of cfg0 "[(''shairport/artist'', ''Nina'')]"
              "\<lparr>SAVED_INFO = [(''playing_artist'', TextData [78, 105, 110, 97])],
                emitted = [\<lparr>ev_name = ''playing_artist'', ev_msg = TextData [78, 105, 110, 97],
                            ev_to = None\<rparr>],
                published = []\<rparr>" "[]"]
        artist_run
  by (simp add: form_subtopic_topic_def cfg0_def)

text \<open>
  C7 fails as stated: in the initial state the cache has no \<open>cover_art\<close> entry and a
  replay emits no event.
\<close>

theorem no_cover_art_before_first_message:
  "map_of (SAVED_INFO init_state) ''cover_art'' = None
   \<and> handle_my_custom_event (JDict []) init_state = Returns init_state
   \<and> emitted init_state = []"
  by (simp add: handle_my_custom_event_def init_state_def)




end
